theory Spec2Isabelle
  imports Complex_Main
begin

section \<open>Tensors and the tensor operations the model uses\<close>

text \<open>
  The source (\<^verbatim>\<open>model.py\<close>) computes on tensors of 32-bit floats. The embedding
  works over the real numbers: every finite float is read as the real it denotes and
  rounding is left out. The two IEEE values that are not reals are kept apart:
  \<^item> minus infinity only ever appears as a masked attention logit, and is the value
    \<open>None\<close> of a \<open>real option\<close>;
  \<^item> NaN arises from the softmax over logits that are all minus infinity and from a
    division by zero. No exception is raised there by the source: the computation goes
    on with NaN. An entry of a tensor that is handed on (the pooled hidden
    representations, the capsule tensors) is a \<open>scalar\<close>, a real or \<open>NaN\<close>. Where one
    row of attention weights, or the losses that \<^verbatim>\<open>calculate_loss\<close> returns, are NaN,
    the result is \<open>Inl NaN_value\<close>: the source returns normally there, with values
    that are not reals.
  Exceptions raised by the tensor library are error values as well.
\<close>

datatype error =
    IndexError    \<comment> \<open>Python IndexError: tuple index, dimension or label out of range\<close>
  | RuntimeError  \<comment> \<open>torch RuntimeError: reduction over an empty dimension, sizes that do not match\<close>
  | NaN_value     \<comment> \<open>no exception: the source goes on, or returns, with NaN\<close>
  | Unmodelled    \<comment> \<open>outside the model: tensors of rank above 3, singleton broadcasting\<close>

datatype scalar = Val real | NaN

type_synonym vec = "real list"
type_synonym mat = "real list list"
type_synonym ten3 = "real list list list"
type_synonym ten4 = "real list list list list"

text \<open>
  A tensor of any rank, for the places where the rank is not fixed by the code
  (\<^verbatim>\<open>squeeze()\<close> drops every dimension of size 1). A tensor is a scalar or a list of
  tensors of one shape. Nested lists cannot record the sizes that follow a dimension of
  size 0, so \<open>shape\<close> ends at an empty dimension.
\<close>

datatype tensor = Sc scalar | Tn "tensor list"

fun shape :: "tensor \<Rightarrow> nat list" where
  "shape (Sc x) = []"
| "shape (Tn []) = [0]"
| "shape (Tn (t # ts)) = Suc (length ts) # shape t"

text \<open>\<^verbatim>\<open>Tensor.squeeze()\<close> with no argument: every dimension of size 1 is removed.\<close>

fun squeeze :: "tensor \<Rightarrow> tensor" where
  "squeeze (Sc x) = Sc x"
| "squeeze (Tn []) = Tn []"
| "squeeze (Tn [t]) = squeeze t"
| "squeeze (Tn (t # u # ts)) = Tn (map squeeze (t # u # ts))"

text \<open>
  Whether an entry of a tensor is NaN, and the tensor with 0 in the place of every NaN
  (only the shape of that tensor is used).
\<close>

fun has_nan :: "tensor \<Rightarrow> bool" where
  "has_nan (Sc x) = (x = NaN)"
| "has_nan (Tn ts) = list_ex has_nan ts"

fun finite_part :: "tensor \<Rightarrow> tensor" where
  "finite_part (Sc (Val x)) = Sc (Val x)"
| "finite_part (Sc NaN) = Sc (Val 0)"
| "finite_part (Tn ts) = Tn (map finite_part ts)"

text \<open>Reading a real-valued tensor as nested lists of a fixed rank, and back.\<close>

fun as0 :: "tensor \<Rightarrow> real option" where
  "as0 (Sc (Val x)) = Some x"
| "as0 (Sc NaN) = None"
| "as0 (Tn ts) = None"

fun as1 :: "tensor \<Rightarrow> vec option" where
  "as1 (Sc x) = None"
| "as1 (Tn ts) = those (map as0 ts)"

fun as2 :: "tensor \<Rightarrow> mat option" where
  "as2 (Sc x) = None"
| "as2 (Tn ts) = those (map as1 ts)"

fun as3 :: "tensor \<Rightarrow> ten3 option" where
  "as3 (Sc x) = None"
| "as3 (Tn ts) = those (map as2 ts)"

definition of1 :: "vec \<Rightarrow> tensor" where
  "of1 v = Tn (map (\<lambda>x. Sc (Val x)) v)"

definition of2 :: "mat \<Rightarrow> tensor" where
  "of2 m = Tn (map of1 m)"

definition of3 :: "ten3 \<Rightarrow> tensor" where
  "of3 c = Tn (map of2 c)"

text \<open>A \<open>B \<times> C \<times> D\<close> tensor as nested lists: every list at one depth has one length.\<close>

definition regular2 :: "nat \<Rightarrow> nat \<Rightarrow> 'a list list \<Rightarrow> bool" where
  "regular2 B R m \<longleftrightarrow> length m = B \<and> list_all (\<lambda>row. length row = R) m"

definition regular3 :: "nat \<Rightarrow> nat \<Rightarrow> nat \<Rightarrow> ten3 \<Rightarrow> bool" where
  "regular3 B C D c \<longleftrightarrow> length c = B \<and> list_all (regular2 C D) c"

text \<open>
  \<^verbatim>\<open>torch.max(x, dim)[0]\<close> along a dimension of size at least 1 (the callers check
  that), and \<^verbatim>\<open>[1]\<close>, the index of the first maximal value.
\<close>

fun max_list :: "vec \<Rightarrow> real" where
  "max_list [] = 0"
| "max_list [x] = x"
| "max_list (x # y # ys) = max x (max_list (y # ys))"

definition argmax :: "vec \<Rightarrow> nat" where
  "argmax xs = length (takeWhile (\<lambda>x. x \<noteq> max_list xs) xs)"

definition mean :: "vec \<Rightarrow> real" where
  "mean xs = sum_list xs / real (length xs)"

text \<open>Elementwise operation on two matrices of one shape.\<close>

definition zip_with2 :: "(real \<Rightarrow> real \<Rightarrow> real) \<Rightarrow> mat \<Rightarrow> mat \<Rightarrow> mat" where
  "zip_with2 f a b = map2 (map2 f) a b"

text \<open>The first error of a list of results, or all the values.\<close>

fun sequence :: "(error + 'a) list \<Rightarrow> error + 'a list" where
  "sequence [] = Inr []"
| "sequence (Inl e # rs) = Inl e"
| "sequence (Inr x # rs) = (case sequence rs of Inl e \<Rightarrow> Inl e | Inr xs \<Rightarrow> Inr (x # xs))"

section \<open>The attention pool of \<^verbatim>\<open>Model.forward\<close> (lines 77, 78, 96, 97)\<close>

text \<open>
  Line 77, \<^verbatim>\<open>masks = torch.max(adj, dim=-1, keepdim=True)[0]\<close>: the maximum of every
  adjacency row. \<open>adj\<close> is \<open>B \<times> N \<times> N\<close>; torch raises when the reduced dimension is
  empty, which for a square adjacency is \<open>N = 0\<close>.
\<close>

definition forward_masks :: "ten3 \<Rightarrow> error + mat" where
  "forward_masks adj =
     (if list_ex (\<lambda>g. g = [] \<or> list_ex (\<lambda>row. row = []) g) adj then Inl RuntimeError
      else Inr (map (map max_list) adj))"

text \<open>Line 78, \<^verbatim>\<open>number_of_nodes = torch.sum(masks, dim=1, keepdim=True)\<close>.\<close>

definition forward_number_of_nodes :: "mat \<Rightarrow> vec" where
  "forward_number_of_nodes masks = map sum_list masks"

text \<open>
  Line 96: \<^verbatim>\<open>attn.masked_fill(masks.eq(0), -np.inf)\<close> puts minus infinity (\<open>None\<close>)
  where the mask is 0, and \<^verbatim>\<open>F.softmax(., dim=1)\<close> normalises the exponentials over
  the nodes of one graph, with \<open>exp (-\<infinity>) = 0\<close>. When every logit is minus infinity
  the quotient is \<open>0 / 0\<close>, NaN for every node.
\<close>

definition masked_fill :: "vec \<Rightarrow> vec \<Rightarrow> real option list" where
  "masked_fill attn masks = map2 (\<lambda>a m. if m = 0 then None else Some a) attn masks"

fun exp_ext :: "real option \<Rightarrow> real" where
  "exp_ext None = 0"
| "exp_ext (Some x) = exp x"

definition softmax :: "real option list \<Rightarrow> error + vec" where
  "softmax xs =
     (let es = map exp_ext xs; s = sum_list es
      in if xs \<noteq> [] \<and> s = 0 then Inl NaN_value else Inr (map (\<lambda>e. e / s) es))"

definition forward_attn :: "mat \<Rightarrow> mat \<Rightarrow> error + mat" where
  "forward_attn attn masks =
     (if length attn \<noteq> length masks \<or> list_ex (\<lambda>(a, m). length a \<noteq> length m) (zip attn masks)
      then Inl Unmodelled
      else sequence (map2 (\<lambda>a m. softmax (masked_fill a m)) attn masks))"

text \<open>
  Line 97, \<^verbatim>\<open>hidden_representations * attn * number_of_nodes\<close>: every entry of node
  \<open>i\<close> of graph \<open>b\<close> is scaled by the node's attention weight and the graph's node count.
  \<open>attn\<close> holds for every graph the result of its softmax: its weights, or
  \<open>Inl NaN_value\<close> when they are all NaN, and then every product of that graph is NaN.
\<close>

definition forward_weighted ::
  "ten4 \<Rightarrow> (error + vec) list \<Rightarrow> vec \<Rightarrow> scalar list list list list" where
  "forward_weighted hidden attn non =
     map2 (\<lambda>(h, a) n.
             case a of
               Inl e \<Rightarrow> map (map (map (\<lambda>x. NaN))) h
             | Inr w \<Rightarrow> map2 (\<lambda>hn an. map (map (\<lambda>x. Val (x * an * n))) hn) h w)
       (zip hidden attn) non"

text \<open>
  Lines 77 to 97 together. The logits \<open>attn\<close> (one per node) and the hidden
  representations \<open>B \<times> N \<times> c \<times> d\<close> come from \<^verbatim>\<open>attention.py\<close> and \<^verbatim>\<open>layer.py\<close>, which
  are not part of the sources: they are parameters. The source has no guard between
  lines 96 and 97: a graph whose softmax is NaN gets NaN entries, and the tensor is
  handed on as it is.
\<close>

definition forward_pool ::
  "ten3 \<Rightarrow> mat \<Rightarrow> ten4 \<Rightarrow> error + scalar list list list list" where
  "forward_pool adj attn hidden =
     (case forward_masks adj of
        Inl e \<Rightarrow> Inl e
      | Inr masks \<Rightarrow>
          let number_of_nodes = forward_number_of_nodes masks in
          if length hidden \<noteq> length masks
             \<or> list_ex (\<lambda>(h, m). length h \<noteq> length m) (zip hidden masks)
             \<or> length attn \<noteq> length masks
             \<or> list_ex (\<lambda>(a, m). length a \<noteq> length m) (zip attn masks)
          then Inl Unmodelled
          else Inr (forward_weighted hidden
                      (map2 (\<lambda>a m. softmax (masked_fill a m)) attn masks) number_of_nodes))"

section \<open>The loss engine: \<^verbatim>\<open>Model.calculate_loss\<close> (lines 108 to 149)\<close>

text \<open>The configuration \<^verbatim>\<open>args\<close>; the loss reads \<open>lambda_val\<close> and \<open>reg_scale\<close>.\<close>

record Args =
  node_embedding_size :: nat
  num_gcn_channels :: nat
  num_gcn_layers :: nat
  num_graph_capsules :: nat
  graph_embedding_size :: nat
  lambda_val :: real
  reg_scale :: real

text \<open>
  An \<^verbatim>\<open>nn.Linear\<close> layer: for every output unit its row of weights and its bias.
  The fields of \<^verbatim>\<open>Model\<close> that the code under \<^verbatim>\<open>src/\<close> reads, and the mode flag
  \<^verbatim>\<open>training\<close> of \<^verbatim>\<open>nn.Module\<close>, which switches the dropout of \<^verbatim>\<open>forward\<close>.
\<close>

type_synonym linear = "(vec \<times> real) list"

record Model =
  num_classes :: nat
  recon_dim :: nat
  reconstruction_layer_1 :: linear
  reconstruction_layer_2 :: linear
  training :: bool

text \<open>Line 10, \<^verbatim>\<open>epsilon = 1e-11\<close>.\<close>

definition epsilon :: real where
  "epsilon = 1 / 10 ^ 11"

text \<open>
  \<^verbatim>\<open>nn.Linear\<close> on a batch of row vectors: \<open>x W\<^sup>T + b\<close>; torch raises when the width
  of the input is not the layer's \<^verbatim>\<open>in_features\<close>.
\<close>

definition linear_apply :: "linear \<Rightarrow> vec \<Rightarrow> error + vec" where
  "linear_apply layer x =
     (if list_ex (\<lambda>(w, b). length w \<noteq> length x) layer then Inl RuntimeError
      else Inr (map (\<lambda>(w, b). sum_list (map2 (*) w x) + b) layer))"

definition linear_batch :: "linear \<Rightarrow> mat \<Rightarrow> error + mat" where
  "linear_batch layer xs = sequence (map (linear_apply layer) xs)"

definition relu :: "real \<Rightarrow> real" where
  "relu x = max 0 x"

definition sigmoid :: "real \<Rightarrow> real" where
  "sigmoid x = 1 / (1 + exp (- x))"

text \<open>
  Lines 124 and 125: \<^verbatim>\<open>T_c = torch.zeros(batch_size, num_class)\<close>, then
  \<^verbatim>\<open>T_c[torch.arange(batch_size), target] = 1\<close>. A \<open>target\<close> of one label is
  broadcast over the batch, a negative label counts from the last class, and a label
  outside \<open>[-num_class, num_class)\<close> or a \<open>target\<close> of another length raises IndexError.
\<close>

definition T_c_of :: "nat \<Rightarrow> nat \<Rightarrow> int list \<Rightarrow> error + mat" where
  "T_c_of batch_size num_class target =
     (let target = (if length target = 1 then replicate batch_size (hd target) else target) in
      if length target \<noteq> batch_size then Inl IndexError
      else if list_ex (\<lambda>t. t < - int num_class \<or> int num_class \<le> t) target then Inl IndexError
      else Inr (map (\<lambda>t. (replicate num_class 0)
                          [nat (if t < 0 then t + int num_class else t) := 1]) target))"

text \<open>\<^verbatim>\<open>.sum(dim=1)\<close> of one graph's \<open>C \<times> D\<close> slice: the sum of its \<open>C\<close> rows.\<close>

definition sum_rows :: "nat \<Rightarrow> mat \<Rightarrow> vec" where
  "sum_rows D m = foldr (map2 (+)) m (replicate D 0)"

definition same_shape :: "mat \<Rightarrow> mat \<Rightarrow> bool" where
  "same_shape a b = list_all2 (\<lambda>x y. length x = length y) a b"

text \<open>
  The body of \<^verbatim>\<open>calculate_loss\<close>, line by line, with the two constants of the
  reconstruction part as parameters: \<open>eps\<close> is \<^verbatim>\<open>epsilon\<close> (line 141) and \<open>thr\<close> is
  the bound \<^verbatim>\<open>1e-5\<close> of the negative indicator (line 137).

  \<^item> Lines 110 to 112 read \<^verbatim>\<open>input_shape[0]\<close> and \<^verbatim>\<open>input_shape[1]\<close>: IndexError below
    rank 2.
  \<^item> Line 114 squeezes, line 115 sums over \<^verbatim>\<open>dim=2\<close>: IndexError when fewer than three
    dimensions are left.
  \<^item> An input of rank above 3 is outside the model. At rank 3 the squeeze has removed
    nothing, so \<open>batch_size\<close> and \<open>num_class\<close> are the sizes of the squeezed tensor.
  \<^item> Line 140 takes a maximum along \<^verbatim>\<open>dim=1\<close> of \<open>reconstructs\<close>: RuntimeError when
    that dimension is empty.
  \<^item> Line 142 subtracts the targets from the decoder output: sizes that differ are
    outside the model (torch broadcasts a dimension of size 1 and raises otherwise).
  \<^item> Line 141 divides by \<open>reconstructs_max + epsilon\<close>: where that is 0 the
    reconstruction loss and the total loss are NaN.
  \<^item> A capsule input with a NaN entry raises what the same tensor without NaN raises
    (no exception depends on the values of the capsules); otherwise every term of the
    margin loss that meets the NaN is NaN (\<open>0 * NaN\<close> is NaN), and so are the margin loss
    and the total loss.
\<close>

definition calculate_loss_with ::
  "real \<Rightarrow> real \<Rightarrow> ('a Args_scheme) \<Rightarrow> ('b Model_scheme) \<Rightarrow> tensor \<Rightarrow> int list \<Rightarrow> mat
     \<Rightarrow> error + (real \<times> real \<times> real \<times> nat list)" where
  "calculate_loss_with eps thr args self capsule_input target reconstructs =
     (let input_shape = shape capsule_input in
      if length input_shape < 2 then Inl IndexError else
      let batch_size = input_shape ! 0;
          num_class = input_shape ! 1;
          capsule_input = squeeze capsule_input in
      if length (shape capsule_input) < 3 then Inl IndexError else
      if 3 < length input_shape then Inl Unmodelled else
      (case as3 (finite_part capsule_input) of
        None \<Rightarrow> Inl Unmodelled
      | Some capsule_values \<Rightarrow>
      let v_mag = map (map (\<lambda>v. sqrt (sum_list (map (\<lambda>x. x ^ 2) v)))) capsule_values;
          pred = map argmax v_mag;
          max_l = map (map (\<lambda>v. (max (9 / 10 - v) 0) ^ 2)) v_mag;
          max_r = map (map (\<lambda>v. (max (v - 1 / 10) 0) ^ 2)) v_mag in
      (case T_c_of batch_size num_class target of
        Inl e \<Rightarrow> Inl e
      | Inr T_c \<Rightarrow>
      let L_c = zip_with2 (+) (zip_with2 (*) T_c max_l)
                  (zip_with2 (*) (map (map (\<lambda>t. lambda_val args * (1 - t))) T_c) max_r);
          L_c = map sum_list L_c;
          margin_loss = mean L_c;
          capsule_masked = map2 (\<lambda>caps t. map2 (\<lambda>v tc. map (\<lambda>x. x * tc) v) caps t)
                             capsule_values T_c;
          capsule_masked = map (sum_rows (input_shape ! 2)) capsule_masked in
      (case linear_batch (reconstruction_layer_1 self) capsule_masked of
        Inl e \<Rightarrow> Inl e
      | Inr hidden \<Rightarrow>
      (case linear_batch (reconstruction_layer_2 self) (map (map relu) hidden) of
        Inl e \<Rightarrow> Inl e
      | Inr out \<Rightarrow>
      let reconstruction_output = map (map sigmoid) out;
          neg_indicator = map (map (\<lambda>r. if r < thr then 1 else 0)) reconstructs;
          pos_indicator = map (map (\<lambda>n. 1 - n)) neg_indicator in
      if list_ex (\<lambda>row. row = []) reconstructs then Inl RuntimeError else
      let reconstructs_max = map max_list reconstructs in
      if \<not> same_shape reconstruction_output reconstructs then Inl Unmodelled else
      if list_ex (\<lambda>m. m + eps = 0) reconstructs_max \<or> has_nan capsule_input
      then Inl NaN_value else
      let reconstruct_value = map2 (\<lambda>row m. map (\<lambda>r. r / (m + eps)) row)
                                reconstructs reconstructs_max;
          diff = zip_with2 (\<lambda>out v. (out - v) ^ 2) reconstruction_output reconstruct_value;
          neg_loss = map max_list (zip_with2 (*) diff neg_indicator);
          pos_loss = map max_list (zip_with2 (*) diff pos_indicator);
          reconstruction_loss = mean (map2 (+) pos_loss neg_loss);
          loss = margin_loss + reconstruction_loss * reg_scale args
      in Inr (loss, margin_loss, reconstruction_loss, pred))))))"

definition calculate_loss ::
  "('a Args_scheme) \<Rightarrow> ('b Model_scheme) \<Rightarrow> tensor \<Rightarrow> int list \<Rightarrow> mat
     \<Rightarrow> error + (real \<times> real \<times> real \<times> nat list)" where
  "calculate_loss args self capsule_input target reconstructs =
     calculate_loss_with epsilon (1 / 10 ^ 5) args self capsule_input target reconstructs"

section \<open>\<^verbatim>\<open>Model.forward\<close> (lines 67 to 106)\<close>

text \<open>
  The layers of \<^verbatim>\<open>attention.py\<close>, \<^verbatim>\<open>layer.py\<close> and \<^verbatim>\<open>util.py\<close> are not part of the
  sources; they are parameters of the model of \<^verbatim>\<open>forward\<close>:
  \<^item> \<open>gcn_hidden\<close>: lines 83 to 92, from the adjacency and the embedded features to the
    hidden representations \<open>b \<times> n \<times> c \<times> d\<close>;
  \<^item> \<open>attention\<close>: line 94, one logit per node;
  \<^item> \<open>graph_capsule\<close> and \<open>class_capsule\<close>: lines 99 and 101, the capsule tensors (the
    coupling coefficients \<^verbatim>\<open>a_j\<close> are not used).
  The embedded features after dropout (lines 71 to 75) are an input. The capsule layers
  get the pooled tensor as line 97 leaves it, NaN entries included, and what they return
  goes through \<^verbatim>\<open>squeeze()\<close> into \<^verbatim>\<open>calculate_loss\<close>: an error of \<^verbatim>\<open>forward\<close> is an
  exception of line 77 or of \<^verbatim>\<open>calculate_loss\<close>, or losses that are NaN.
\<close>

record Layers =
  gcn_hidden :: "ten3 \<Rightarrow> ten3 \<Rightarrow> ten4"
  attention :: "ten4 \<Rightarrow> mat"
  graph_capsule :: "scalar list list list list \<Rightarrow> vec \<Rightarrow> tensor"
  class_capsule :: "tensor \<Rightarrow> tensor"

definition forward ::
  "Layers \<Rightarrow> ('a Args_scheme) \<Rightarrow> ('b Model_scheme) \<Rightarrow> ten3 \<Rightarrow> ten3 \<Rightarrow> int list \<Rightarrow> mat
     \<Rightarrow> error + (tensor \<times> real \<times> real \<times> real \<times> int list \<times> nat list)" where
  "forward layers args self adj features label reconstructs =
     (case forward_masks adj of
        Inl e \<Rightarrow> Inl e
      | Inr masks \<Rightarrow>
      let number_of_nodes = forward_number_of_nodes masks;
          hidden_representations = gcn_hidden layers adj features;
          attn = attention layers hidden_representations in
      (case forward_pool adj attn hidden_representations of
        Inl e \<Rightarrow> Inl e
      | Inr hidden_representations \<Rightarrow>
      let graph_capsule_output = graph_capsule layers hidden_representations number_of_nodes;
          class_capsule_output = class_capsule layers graph_capsule_output;
          class_capsule_output = squeeze class_capsule_output in
      (case calculate_loss args self class_capsule_output label reconstructs of
        Inl e \<Rightarrow> Inl e
      | Inr (loss, margin_loss, reconstruction_loss, pred) \<Rightarrow>
          Inr (class_capsule_output, loss, margin_loss, reconstruction_loss, label, pred))))"

section \<open>The losses in the words of the specification\<close>

text \<open>
  Section 4.5 of the specification, written over indices: the norm of a capsule, the
  one-hot encoding of a label, and the margin loss as the mean over the batch of the sum
  over the classes of
  \<open>T\<^sub>c * max(0, 0.9 - v)\<^sup>2 + \<lambda> * (1 - T\<^sub>c) * max(0, v - 0.1)\<^sup>2\<close>.
\<close>

definition capsule_norm :: "vec \<Rightarrow> real" where
  "capsule_norm v = sqrt (\<Sum>x\<leftarrow>v. x\<^sup>2)"

definition one_hot :: "nat \<Rightarrow> nat \<Rightarrow> real" where
  "one_hot l c = (if c = l then 1 else 0)"

definition spec_margin_term :: "real \<Rightarrow> real \<Rightarrow> real \<Rightarrow> real" where
  "spec_margin_term lam T v =
     T * (max 0 (9 / 10 - v))\<^sup>2 + lam * (1 - T) * (max 0 (v - 1 / 10))\<^sup>2"

definition spec_margin_loss :: "real \<Rightarrow> ten3 \<Rightarrow> nat list \<Rightarrow> real" where
  "spec_margin_loss lam caps labels =
     (\<Sum>b\<leftarrow>[0..<length caps]. \<Sum>c\<leftarrow>[0..<length (caps ! b)].
         spec_margin_term lam (one_hot (labels ! b) c) (capsule_norm (caps ! b ! c)))
     / real (length caps)"

text \<open>
  The reconstruction loss of one graph. The class capsules other than the true one are
  zeroed and the capsules summed over the class axis; the result goes through the decoder
  (affine, ReLU, affine, sigmoid). The target is divided by its own maximum plus
  \<open>epsilon\<close>. The negative set holds the dimensions whose original target is below
  \<open>10\<^sup>-\<^sup>5\<close>, the positive set the others; the squared error is maximised within each set,
  and the two maxima are added. The specification does not say what the maximum within an
  empty set is; it is taken to be 0 (no dimension, no error).
\<close>

definition masked_capsule :: "nat \<Rightarrow> mat \<Rightarrow> nat \<Rightarrow> vec" where
  "masked_capsule D caps l =
     map (\<lambda>d. \<Sum>c\<leftarrow>[0..<length caps]. one_hot l c * caps ! c ! d) [0..<D]"

definition affine :: "linear \<Rightarrow> vec \<Rightarrow> vec" where
  "affine layer x = map (\<lambda>(w, b). (\<Sum>i\<leftarrow>[0..<length x]. w ! i * x ! i) + b) layer"

definition spec_decode :: "linear \<Rightarrow> linear \<Rightarrow> vec \<Rightarrow> vec" where
  "spec_decode l1 l2 x = map sigmoid (affine l2 (map relu (affine l1 x)))"

definition spec_max_within :: "(nat \<Rightarrow> real) \<Rightarrow> nat list \<Rightarrow> real" where
  "spec_max_within err S = (if S = [] then 0 else Max (set (map err S)))"

definition spec_reconstruction_graph :: "linear \<Rightarrow> linear \<Rightarrow> nat \<Rightarrow> mat \<Rightarrow> nat \<Rightarrow> vec \<Rightarrow> real" where
  "spec_reconstruction_graph l1 l2 D caps l r =
     (let m = Max (set r);
          target = map (\<lambda>x. x / (m + epsilon)) r;
          out = spec_decode l1 l2 (masked_capsule D caps l);
          err = (\<lambda>i. (out ! i - target ! i)\<^sup>2);
          neg = filter (\<lambda>i. r ! i < 1 / 10 ^ 5) [0..<length r];
          pos = filter (\<lambda>i. \<not> r ! i < 1 / 10 ^ 5) [0..<length r]
      in spec_max_within err pos + spec_max_within err neg)"

definition spec_reconstruction_loss ::
  "linear \<Rightarrow> linear \<Rightarrow> nat \<Rightarrow> ten3 \<Rightarrow> nat list \<Rightarrow> mat \<Rightarrow> real" where
  "spec_reconstruction_loss l1 l2 D caps labels reconstructs =
     (\<Sum>b\<leftarrow>[0..<length caps].
         spec_reconstruction_graph l1 l2 D (caps ! b) (labels ! b) (reconstructs ! b))
     / real (length caps)"

section \<open>The parts of \<^verbatim>\<open>calculate_loss\<close> by name\<close>

text \<open>
  The intermediate tensors of \<^verbatim>\<open>calculate_loss\<close> as functions of what they are
  computed from, so that lemmas can speak about one of them at a time.
\<close>

definition v_mag_of :: "ten3 \<Rightarrow> mat" where
  "v_mag_of capsule_input = map (map (\<lambda>v. sqrt (sum_list (map (\<lambda>x. x ^ 2) v)))) capsule_input"

definition margin_part :: "real \<Rightarrow> mat \<Rightarrow> mat \<Rightarrow> real" where
  "margin_part lam v_mag T_c =
     mean (map sum_list
       (zip_with2 (+)
          (zip_with2 (*) T_c (map (map (\<lambda>v. (max (9 / 10 - v) 0) ^ 2)) v_mag))
          (zip_with2 (*) (map (map (\<lambda>t. lam * (1 - t))) T_c)
             (map (map (\<lambda>v. (max (v - 1 / 10) 0) ^ 2)) v_mag))))"

definition masked_part :: "nat \<Rightarrow> ten3 \<Rightarrow> mat \<Rightarrow> mat" where
  "masked_part D capsule_input T_c =
     map (sum_rows D)
       (map2 (\<lambda>caps t. map2 (\<lambda>v tc. map (\<lambda>x. x * tc) v) caps t) capsule_input T_c)"

definition reconstruct_value_of :: "real \<Rightarrow> mat \<Rightarrow> mat" where
  "reconstruct_value_of eps reconstructs =
     map2 (\<lambda>row m. map (\<lambda>r. r / (m + eps)) row) reconstructs (map max_list reconstructs)"

definition recon_part :: "real \<Rightarrow> real \<Rightarrow> mat \<Rightarrow> mat \<Rightarrow> real" where
  "recon_part eps thr reconstruction_output reconstructs =
     (let neg_indicator = map (map (\<lambda>r. if r < thr then 1 else 0)) reconstructs;
          pos_indicator = map (map (\<lambda>n. 1 - n)) neg_indicator;
          diff = zip_with2 (\<lambda>out v. (out - v) ^ 2) reconstruction_output
                   (reconstruct_value_of eps reconstructs)
      in mean (map2 (+) (map max_list (zip_with2 (*) diff pos_indicator))
                        (map max_list (zip_with2 (*) diff neg_indicator))))"

section \<open>Example inputs\<close>

text \<open>
  A batch of two graphs with two classes and capsules of dimension 2, a decoder whose
  weights are all 0 (its output is \<open>sigmoid 0 = 1/2\<close> everywhere), and targets with a
  positive and a negative dimension each.
\<close>

definition ex_args :: Args where
  "ex_args = \<lparr>node_embedding_size = 2, num_gcn_channels = 1, num_gcn_layers = 1,
     num_graph_capsules = 2, graph_embedding_size = 2, lambda_val = 1 / 2, reg_scale = 1 / 10\<rparr>"

definition ex_model :: Model where
  "ex_model = \<lparr>num_classes = 2, recon_dim = 2,
     reconstruction_layer_1 = [([0, 0], 0)],
     reconstruction_layer_2 = [([0], 0), ([0], 0)], training = False\<rparr>"

definition ex_caps :: ten3 where
  "ex_caps = [[[1, 0], [0, 0]], [[0, 0], [1, 0]]]"

definition ex_target :: "int list" where
  "ex_target = [0, 1]"

definition ex_reconstructs :: mat where
  "ex_reconstructs = [[1, 0], [0, 2]]"

text \<open>
  Stand-ins for the layers that are not part of the sources: every node keeps its
  features as one channel, every attention logit is 0, and the capsule layers return a
  constant \<open>2 \<times> 2\<close> capsule matrix for every graph of the batch.
\<close>

definition ex_layers :: Layers where
  "ex_layers = \<lparr>gcn_hidden = (\<lambda>adj features. map (map (\<lambda>node. [node])) features),
     attention = (\<lambda>hidden. map (map (\<lambda>node. 0)) hidden),
     graph_capsule = (\<lambda>hidden number_of_nodes. of3 (map (\<lambda>g. [[1, 0], [0, 0]]) hidden)),
     class_capsule = (\<lambda>t. t)\<rparr>"

text \<open>One graph of three fully connected nodes, and two graphs of which the first has no edge.\<close>

definition ex_adj_triangle :: ten3 where
  "ex_adj_triangle = [[[0, 1, 1], [1, 0, 1], [1, 1, 0]]]"

definition ex_adj_empty_graph :: ten3 where
  "ex_adj_empty_graph = [[[0, 0], [0, 0]], [[0, 1], [1, 0]]]"

text \<open>Targets whose second dimension is just above the bound \<open>10\<^sup>-\<^sup>5\<close> of the negative set.\<close>

definition ex_reconstructs_near :: mat where
  "ex_reconstructs_near = [[1, 1 / 50000], [1, 1 / 50000]]"

section \<open>Tensors of rank 3 and \<open>squeeze\<close>\<close>

lemma those_map_Some: "those (map (\<lambda>x. Some (f x)) xs) = Some (map f xs)"
  by (induction xs) auto

lemma as1_of1: "as1 (of1 v) = Some v"
  unfolding of1_def by (induction v) auto

lemma as2_of2: "as2 (of2 m) = Some m"
  unfolding of2_def by (induction m) (auto simp: as1_of1)

lemma as3_of3: "as3 (of3 c) = Some c"
  unfolding of3_def by (induction c) (auto simp: as2_of2)

lemma has_nan_of1: "has_nan (of1 v) = False"
  by (simp add: of1_def list_ex_iff)

lemma has_nan_of2: "has_nan (of2 m) = False"
  by (simp add: of2_def list_ex_iff has_nan_of1)

lemma has_nan_of3: "has_nan (of3 c) = False"
  by (simp add: of3_def list_ex_iff has_nan_of2)

lemma finite_part_of1: "finite_part (of1 v) = of1 v"
  by (simp add: of1_def)

lemma finite_part_of2: "finite_part (of2 m) = of2 m"
  by (simp add: of2_def finite_part_of1)

lemma finite_part_of3: "finite_part (of3 c) = of3 c"
  by (simp add: of3_def finite_part_of2)

lemma squeeze_idem: "squeeze (squeeze t) = squeeze t"
  by (induction t rule: squeeze.induct) auto

lemma rank_squeeze_le: "length (shape (squeeze t)) \<le> length (shape t)"
  by (induction t rule: squeeze.induct) auto

lemma shape_of1: "shape (of1 v) = [length v]"
  unfolding of1_def by (cases v) auto

lemma shape_of2: "regular2 C D m \<Longrightarrow> 0 < C \<Longrightarrow> shape (of2 m) = [C, D]"
  unfolding of2_def regular2_def by (cases m) (auto simp: shape_of1)

lemma shape_of3: "regular3 B C D c \<Longrightarrow> 0 < B \<Longrightarrow> 0 < C \<Longrightarrow> shape (of3 c) = [B, C, D]"
  unfolding of3_def regular3_def by (cases c) (auto simp: shape_of2)

lemma squeeze_of1: 
  assumes "length v \<noteq> 1" shows "squeeze (of1 v) = of1 v"
proof (cases v)
  case Nil then show ?thesis by (simp add: of1_def)
next
  case (Cons x xs)
  with assms show ?thesis by (cases xs) (auto simp: of1_def)
qed

lemma squeeze_of2:
  assumes "regular2 C D m" "C \<noteq> 1" "D \<noteq> 1"
  shows "squeeze (of2 m) = of2 m"
proof (cases m)
  case Nil then show ?thesis by (simp add: of2_def)
next
  case (Cons x xs)
  with assms show ?thesis
    by (cases xs) (auto simp: of2_def regular2_def squeeze_of1 list_all_iff)
qed

lemma squeeze_of3:
  assumes "regular3 B C D c" "B \<noteq> 1" "C \<noteq> 1" "D \<noteq> 1"
  shows "squeeze (of3 c) = of3 c"
proof (cases c)
  case Nil then show ?thesis by (simp add: of3_def)
next
  case (Cons x xs)
  with assms show ?thesis
    by (cases xs) (auto simp: of3_def regular3_def squeeze_of2 list_all_iff)
qed

lemma rank_of2: "length (shape (of2 m)) \<le> 2"
  by (cases m) (auto simp: of2_def shape_of1)

lemma rank_squeeze_of1: 
  assumes "1 \<le> length (shape (squeeze (of1 v)))" shows "length v \<noteq> 1"
proof
  assume "length v = 1"
  then obtain x where "v = [x]" by (cases v) auto
  with assms show False by (simp add: of1_def)
qed

lemma rank_squeeze_of2: 
  assumes "regular2 C D m" "2 \<le> length (shape (squeeze (of2 m)))" 
  shows "2 \<le> C \<and> D \<noteq> 1"
proof (cases m)
  case Nil with assms show ?thesis by (simp add: of2_def)
next
  case (Cons v vs)
  show ?thesis
  proof (cases vs)
    case Nil
    with Cons assms(2) have "2 \<le> length (shape (squeeze (of1 v)))" by (simp add: of2_def)
    moreover have "length (shape (squeeze (of1 v))) \<le> 1"
      using rank_squeeze_le[of "of1 v"] by (simp add: shape_of1)
    ultimately show ?thesis by simp
  next
    case (Cons w ws)
    with \<open>m = v # vs\<close> assms have "1 \<le> length (shape (squeeze (of1 v)))" "length v = D" "C = length m"
      by (auto simp: of2_def regular2_def)
    with rank_squeeze_of1[of v] Cons \<open>m = v # vs\<close> show ?thesis by auto
  qed
qed

lemma rank_squeeze_of3:
  assumes "regular3 B C D c" "3 \<le> length (shape (squeeze (of3 c)))"
  shows "2 \<le> B \<and> 2 \<le> C \<and> D \<noteq> 1"
proof (cases c)
  case Nil with assms show ?thesis by (simp add: of3_def)
next
  case (Cons g gs)
  show ?thesis
  proof (cases gs)
    case Nil
    with Cons assms(2) have "3 \<le> length (shape (squeeze (of2 g)))" by (simp add: of3_def)
    moreover have "length (shape (squeeze (of2 g))) \<le> 2"
      using rank_squeeze_le[of "of2 g"] rank_of2[of g] by linarith
    ultimately show ?thesis by simp
  next
    case (Cons h hs)
    with \<open>c = g # gs\<close> assms have "2 \<le> length (shape (squeeze (of2 g)))" "regular2 C D g" "B = length c"
      by (auto simp: of3_def regular3_def)
    with rank_squeeze_of2[of C D g] Cons \<open>c = g # gs\<close> show ?thesis by auto
  qed
qed

section \<open>\<^verbatim>\<open>calculate_loss\<close> in terms of its parts\<close>

lemma calculate_loss_with_alt:
  "calculate_loss_with eps thr args self t target reconstructs =
    (if length (shape t) < 2 then Inl IndexError
     else if length (shape (squeeze t)) < 3 then Inl IndexError
     else if 3 < length (shape t) then Inl Unmodelled
     else (case as3 (finite_part (squeeze t)) of
        None \<Rightarrow> Inl Unmodelled
      | Some ci \<Rightarrow>
      (case T_c_of (shape t ! 0) (shape t ! 1) target of
        Inl e \<Rightarrow> Inl e
      | Inr T_c \<Rightarrow>
      (case linear_batch (reconstruction_layer_1 self) (masked_part (shape t ! 2) ci T_c) of
        Inl e \<Rightarrow> Inl e
      | Inr hidden \<Rightarrow>
      (case linear_batch (reconstruction_layer_2 self) (map (map relu) hidden) of
        Inl e \<Rightarrow> Inl e
      | Inr out \<Rightarrow>
        if list_ex (\<lambda>row. row = []) reconstructs then Inl RuntimeError
        else if \<not> same_shape (map (map sigmoid) out) reconstructs then Inl Unmodelled
        else if list_ex (\<lambda>m. m + eps = 0) (map max_list reconstructs) \<or> has_nan (squeeze t)
        then Inl NaN_value
        else Inr (margin_part (lambda_val args) (v_mag_of ci) T_c
                    + recon_part eps thr (map (map sigmoid) out) reconstructs * reg_scale args,
                  margin_part (lambda_val args) (v_mag_of ci) T_c,
                  recon_part eps thr (map (map sigmoid) out) reconstructs,
                  map argmax (v_mag_of ci)))))))"
  unfolding calculate_loss_with_def Let_def v_mag_of_def margin_part_def masked_part_def
    recon_part_def reconstruct_value_of_def
  by (simp split: option.split sum.split)

section \<open>One-hot rows and signs of the parts\<close>

lemma one_hot_row: "l < C \<Longrightarrow> (replicate C (0::real))[l := 1] = map (one_hot l) [0..<C]"
  by (rule nth_equalityI) (auto simp: one_hot_def nth_list_update)

lemma T_c_of_labels:
  assumes "length target = B" "\<forall>t\<in>set target. 0 \<le> t \<and> t < int C"
  shows "T_c_of B C target = Inr (map (\<lambda>t. map (one_hot (nat t)) [0..<C]) target)"
proof -
  have r: "(if length target = 1 then replicate B (hd target) else target) = target"
    using assms(1) by (cases target) auto
  have "\<not> list_ex (\<lambda>t. t < - int C \<or> int C \<le> t) target"
    using assms(2) by (auto simp: list_ex_iff)
  moreover have "map (\<lambda>t. (replicate C (0::real))[nat (if t < 0 then t + int C else t) := 1]) target
      = map (\<lambda>t. map (one_hot (nat t)) [0..<C]) target"
    using assms(2) by (intro map_cong refl) (auto simp: one_hot_row)
  ultimately show ?thesis
    unfolding T_c_of_def Let_def r using assms(1) by simp
qed

lemma update_binary: "x \<in> set ((replicate n (0::real))[i := 1]) \<Longrightarrow> x = 0 \<or> x = 1"
proof -
  assume "x \<in> set ((replicate n (0::real))[i := 1])"
  then have "x \<in> insert 1 (set (replicate n (0::real)))"
    using set_update_subset_insert by fastforce
  then show "x = 0 \<or> x = 1" by auto
qed

lemma T_c_of_binary:
  assumes "T_c_of B C target = Inr T"
  shows "\<forall>row\<in>set T. \<forall>x\<in>set row. x = 0 \<or> x = 1"
proof (intro ballI)
  fix row x assume "row \<in> set T" "x \<in> set row"
  moreover define tg where "tg = (if length target = 1 then replicate B (hd target) else target)"
  from assms have "T = map (\<lambda>t. (replicate C 0)
                          [nat (if t < 0 then t + int C else t) := 1]) tg"
    unfolding T_c_of_def Let_def tg_def by (simp split: if_splits)
  ultimately obtain n i where "x \<in> set ((replicate n (0::real))[i := 1])" by auto
  then show "x = 0 \<or> x = 1" by (rule update_binary)
qed

lemma T_c_of_length:
  assumes "T_c_of B C target = Inr T"
  shows "regular2 B C T"
  using assms by (auto simp: T_c_of_def Let_def regular2_def list_all_iff split: if_splits)

lemma max_list_Max: "xs \<noteq> [] \<Longrightarrow> max_list xs = Max (set xs)"
  by (induction xs rule: max_list.induct) auto

lemma max_list_nonneg: "\<forall>x\<in>set xs. 0 \<le> x \<Longrightarrow> 0 \<le> max_list xs"
  by (induction xs rule: max_list.induct) auto

lemma mean_nonneg: "\<forall>x\<in>set xs. 0 \<le> x \<Longrightarrow> 0 \<le> mean xs"
  by (simp add: mean_def sum_list_nonneg)

lemma set_map2: "z \<in> set (map2 f xs ys) \<Longrightarrow> \<exists>x\<in>set xs. \<exists>y\<in>set ys. z = f x y"
  by (auto dest: set_zip_leftD set_zip_rightD)

lemma zip_with2_all:
  assumes "\<forall>row\<in>set a. \<forall>x\<in>set row. P x" "\<forall>row\<in>set b. \<forall>y\<in>set row. Q y"
    and "\<And>x y. P x \<Longrightarrow> Q y \<Longrightarrow> R (f x y)"
  shows "\<forall>row\<in>set (zip_with2 f a b). \<forall>z\<in>set row. R z"
proof (intro ballI)
  fix row z assume "row \<in> set (zip_with2 f a b)" "z \<in> set row"
  then obtain ra rb where r: "(ra, rb) \<in> set (zip a b)" "z \<in> set (map2 f ra rb)"
    unfolding zip_with2_def by auto
  then obtain x y where e: "(x, y) \<in> set (zip ra rb)" "z = f x y"
    by auto
  have "ra \<in> set a" "rb \<in> set b" "x \<in> set ra" "y \<in> set rb"
    using r(1) e(1) by (auto dest: set_zip_leftD set_zip_rightD)
  with e(2) assms show "R z" by blast
qed

lemma margin_part_nonneg:
  assumes "0 \<le> lam" "\<forall>row\<in>set T. \<forall>x\<in>set row. x = 0 \<or> x = 1"
  shows "0 \<le> margin_part lam v T"
proof -
  have sq: "\<And>g. \<forall>row\<in>set (map (map (\<lambda>v::real. (g v :: real) ^ 2)) v). \<forall>y\<in>set row. 0 \<le> y"
    by auto
  have l: "\<forall>row\<in>set (map (map (\<lambda>t. lam * (1 - t))) T). \<forall>y\<in>set row. 0 \<le> y"
  proof (intro ballI)
    fix row y assume "row \<in> set (map (map (\<lambda>t. lam * (1 - t))) T)" "y \<in> set row"
    then obtain r' x where "r' \<in> set T" "x \<in> set r'" and y: "y = lam * (1 - x)" by auto
    with assms(2) have "x = 0 \<or> x = 1" by blast
    then show "0 \<le> y" using assms(1) y by auto
  qed
  have t: "\<forall>row\<in>set (zip_with2 (*) T (map (map (\<lambda>v. (max (9 / 10 - v) 0) ^ 2)) v)). \<forall>x\<in>set row. 0 \<le> x"
    by (rule zip_with2_all[OF assms(2) sq]) auto
  have u: "\<forall>row\<in>set (zip_with2 (*) (map (map (\<lambda>t. lam * (1 - t))) T)
             (map (map (\<lambda>v. (max (v - 1 / 10) 0) ^ 2)) v)). \<forall>x\<in>set row. 0 \<le> x"
    by (rule zip_with2_all[OF l sq]) auto
  have "\<forall>row\<in>set (zip_with2 (+) (zip_with2 (*) T (map (map (\<lambda>v. (max (9 / 10 - v) 0) ^ 2)) v))
      (zip_with2 (*) (map (map (\<lambda>t. lam * (1 - t))) T)
             (map (map (\<lambda>v. (max (v - 1 / 10) 0) ^ 2)) v))). \<forall>x\<in>set row. 0 \<le> x"
    by (rule zip_with2_all[OF t u]) auto
  then show ?thesis
    unfolding margin_part_def by (intro mean_nonneg) (auto intro: sum_list_nonneg)
qed

lemma recon_part_nonneg: "0 \<le> recon_part eps thr out r"
proof -
  have d: "\<And>v. \<forall>row\<in>set (zip_with2 (\<lambda>out v. (out - v) ^ 2) out v). \<forall>x\<in>set row. (0::real) \<le> x"
    by (rule zip_with2_all[where P="\<lambda>_. True" and Q="\<lambda>_. True"]) auto
  have n: "\<forall>row\<in>set (map (map (\<lambda>r. if r < thr then 1 else (0::real))) r). \<forall>y\<in>set row. 0 \<le> y"
    by auto
  have p: "\<forall>row\<in>set (map (map (\<lambda>n. 1 - n)) (map (map (\<lambda>r. if r < thr then 1 else (0::real))) r)). \<forall>y\<in>set row. 0 \<le> y"
    by auto
  have "\<forall>x\<in>set (map max_list (zip_with2 (*) (zip_with2 (\<lambda>out v. (out - v) ^ 2) out (reconstruct_value_of eps r))
      (map (map (\<lambda>r. if r < thr then 1 else (0::real))) r))). 0 \<le> x"
    using zip_with2_all[OF d n, of "\<lambda>x. 0 \<le> x" "(*)"] by (auto intro!: max_list_nonneg)
  moreover have "\<forall>x\<in>set (map max_list (zip_with2 (*) (zip_with2 (\<lambda>out v. (out - v) ^ 2) out (reconstruct_value_of eps r))
      (map (map (\<lambda>n. 1 - n)) (map (map (\<lambda>r. if r < thr then 1 else (0::real))) r)))). 0 \<le> x"
    using zip_with2_all[OF d p, of "\<lambda>x. 0 \<le> x" "(*)"] by (auto intro!: max_list_nonneg)
  ultimately have "\<forall>x\<in>set (map2 (+) (map max_list (zip_with2 (*) (zip_with2 (\<lambda>out v. (out - v) ^ 2) out (reconstruct_value_of eps r))
      (map (map (\<lambda>n. 1 - n)) (map (map (\<lambda>r. if r < thr then 1 else (0::real))) r)))) 
     (map max_list (zip_with2 (*) (zip_with2 (\<lambda>out v. (out - v) ^ 2) out (reconstruct_value_of eps r))
      (map (map (\<lambda>r. if r < thr then 1 else (0::real))) r)))). 0 \<le> x"
    by (fastforce dest!: set_map2)
  then show ?thesis unfolding recon_part_def Let_def by (rule mean_nonneg)
qed

section \<open>The example batch\<close>

lemma ex_shape: "shape (of3 ex_caps) = [2, 2, 2]" "squeeze (of3 ex_caps) = of3 ex_caps"
  by (simp_all add: ex_caps_def of3_def of2_def of1_def)

lemma ex_returns:
  "\<exists>rl. calculate_loss ex_args ex_model (of3 ex_caps) ex_target ex_reconstructs
      = Inr (0 + rl * (1 / 10), 0, rl, [0, 1])"
  unfolding calculate_loss_def calculate_loss_with_alt ex_shape finite_part_of3 as3_of3 has_nan_of3
  by (simp add: ex_caps_def ex_target_def ex_reconstructs_def ex_model_def ex_args_def
      T_c_of_def masked_part_def sum_rows_def linear_batch_def linear_apply_def relu_def
      sigmoid_def same_shape_def epsilon_def v_mag_of_def margin_part_def zip_with2_def
      mean_def argmax_def eval_nat_numeral)

section \<open>Node masks and the masked softmax\<close>

lemma max_list_nonzero:
  assumes "xs \<noteq> []" "\<forall>e\<in>set xs. 0 \<le> e"
  shows "(max_list xs \<noteq> 0) = (\<exists>e\<in>set xs. e \<noteq> 0)"
proof -
  have m: "max_list xs = Max (set xs)" using assms(1) by (rule max_list_Max)
  have "Max (set xs) \<in> set xs" using assms(1) by (intro Max_in) auto
  show ?thesis
  proof
    assume "max_list xs \<noteq> 0"
    with m \<open>Max (set xs) \<in> set xs\<close> show "\<exists>e\<in>set xs. e \<noteq> 0" by metis
  next
    assume "\<exists>e\<in>set xs. e \<noteq> 0"
    then obtain e where e: "e \<in> set xs" "e \<noteq> 0" by blast
    with assms(2) have "0 < e" by fastforce
    moreover have "e \<le> Max (set xs)" using e(1) by (intro Max_ge) auto
    ultimately show "max_list xs \<noteq> 0" using m by simp
  qed
qed

lemma max_list_binary:
  assumes "xs \<noteq> []" "\<forall>e\<in>set xs. e = 0 \<or> e = 1"
  shows "max_list xs = 0 \<or> max_list xs = 1"
proof -
  have "Max (set xs) \<in> set xs" using assms(1) by (intro Max_in) auto
  with assms(2) max_list_Max[OF assms(1)] show ?thesis by metis
qed

lemma sum_list_binary:
  "\<forall>m\<in>set ms. m = 0 \<or> m = (1::real) \<Longrightarrow> sum_list ms = real (length (filter (\<lambda>m. m \<noteq> 0) ms))"
  by (induction ms) auto

lemma forward_masks_Inr:
  assumes "regular3 B N N adj" "0 < N"
  shows "forward_masks adj = Inr (map (map max_list) adj)"
proof -
  have "\<not> list_ex (\<lambda>g. g = [] \<or> list_ex (\<lambda>row. row = []) g) adj"
    using assms by (fastforce simp: regular3_def regular2_def list_ex_iff list_all_iff)
  then show ?thesis by (simp add: forward_masks_def)
qed

lemma sequence_map_Inr: "sequence (map Inr ys) = Inr ys"
  by (induction ys) simp_all

lemma sequence_Inr_D: "sequence rs = Inr ys \<Longrightarrow> rs = map Inr ys"
proof (induction rs arbitrary: ys)
  case Nil
  then show ?case by simp
next
  case (Cons r rs)
  show ?case
  proof (cases r)
    case (Inl e)
    with Cons.prems show ?thesis by simp
  next
    case (Inr x)
    show ?thesis
    proof (cases "sequence rs")
      case (Inl e)
      with Cons.prems \<open>r = Inr x\<close> show ?thesis by simp
    next
      case (Inr xs)
      with Cons.prems \<open>r = Inr x\<close> have "ys = x # xs" by simp
      moreover from Cons.IH[OF Inr] have "rs = map Inr xs" .
      ultimately show ?thesis using \<open>r = Inr x\<close> by simp
    qed
  qed
qed

lemma sequence_Inr: "sequence rs = Inr ys \<longleftrightarrow> rs = map Inr ys"
  using sequence_Inr_D sequence_map_Inr by blast

lemma sequence_Inl:
  assumes "Inl e \<in> set rs" "\<forall>r\<in>set rs. \<forall>e'. r = Inl e' \<longrightarrow> e' = e"
  shows "sequence rs = Inl e"
  using assms
proof (induction rs)
  case Nil
  then show ?case by simp
next
  case (Cons r rs)
  show ?case
  proof (cases r)
    case (Inl e')
    with Cons.prems(2) have "e' = e" by simp
    with Inl show ?thesis by simp
  next
    case (Inr x)
    with Cons.prems(1) have "Inl e \<in> set rs" by auto
    moreover from Cons.prems(2) have "\<forall>r\<in>set rs. \<forall>e'. r = Inl e' \<longrightarrow> e' = e" by simp
    ultimately have "sequence rs = Inl e" by (rule Cons.IH)
    with Inr show ?thesis by simp
  qed
qed

lemma masked_fill_nth:
  assumes "length a = N" "length m = N" "i < N"
  shows "exp_ext (masked_fill a m ! i) = (if m ! i = 0 then 0 else exp (a ! i))"
  using assms by (simp add: masked_fill_def)

lemma softmax_masked_row:
  assumes "length a = N" "length m = N" "\<exists>i<N. m ! i \<noteq> 0"
  shows "\<exists>w. softmax (masked_fill a m) = Inr w \<and> length w = N \<and>
           (\<forall>i<N. m ! i = 0 \<longrightarrow> w ! i = 0) \<and>
           (\<Sum>i | i < N \<and> m ! i \<noteq> 0. w ! i) = 1"
proof -
  let ?es = "map exp_ext (masked_fill a m)"
  let ?s = "sum_list ?es"
  have len: "length ?es = N" using assms(1,2) by (simp add: masked_fill_def)
  have nth: "?es ! i = (if m ! i = 0 then 0 else exp (a ! i))" if "i < N" for i
    using that assms(1,2) by (simp add: masked_fill_def)
  have s: "?s = (\<Sum>i<N. ?es ! i)"
    using len by (simp add: sum_list_sum_nth atLeast0LessThan)
  obtain k where k: "k < N" "m ! k \<noteq> 0" using assms(3) by blast
  have "0 < ?es ! k" using nth[OF k(1)] k(2) by simp
  moreover have "?es ! k \<le> (\<Sum>i<N. ?es ! i)"
    using k(1) nth by (intro member_le_sum) auto
  ultimately have pos: "0 < ?s" using s by linarith
  let ?w = "map (\<lambda>e. e / ?s) ?es"
  have sm: "softmax (masked_fill a m) = Inr ?w"
    using pos by (simp add: softmax_def Let_def)
  have zero: "\<forall>i<N. m ! i = 0 \<longrightarrow> ?w ! i = 0"
    using len nth by simp
  have "(\<Sum>i | i < N \<and> m ! i \<noteq> 0. ?w ! i) = (\<Sum>i | i < N \<and> m ! i \<noteq> 0. ?es ! i / ?s)"
    using len by (intro sum.cong) auto
  also have "\<dots> = (\<Sum>i | i < N \<and> m ! i \<noteq> 0. ?es ! i) / ?s"
    by (simp add: sum_divide_distrib)
  also have "(\<Sum>i | i < N \<and> m ! i \<noteq> 0. ?es ! i) = (\<Sum>i<N. ?es ! i)"
    using nth by (intro sum.mono_neutral_left) auto
  finally have "(\<Sum>i | i < N \<and> m ! i \<noteq> 0. ?w ! i) = 1"
    using s pos by simp
  with sm zero len show ?thesis by (intro exI[of _ ?w]) simp
qed

lemma softmax_all_masked:
  assumes "length a = N" "length m = N" "0 < N" "\<forall>i<N. m ! i = 0"
  shows "softmax (masked_fill a m) = Inl NaN_value"
proof -
  have "masked_fill a m = replicate N None"
    using assms by (intro nth_equalityI) (auto simp: masked_fill_def)
  then have "map exp_ext (masked_fill a m) = replicate N 0" by simp
  then have "sum_list (map exp_ext (masked_fill a m)) = 0" by (simp add: sum_list_replicate)
  moreover have "masked_fill a m \<noteq> []" using assms by (auto simp: masked_fill_def)
  ultimately show ?thesis unfolding softmax_def Let_def by (simp only: simp_thms if_True)
qed

lemma softmax_error: "softmax xs = Inl e \<Longrightarrow> e = NaN_value"
  by (auto simp: softmax_def Let_def split: if_splits)


lemma rows_agree:
  assumes "regular2 B N x" "regular2 B N y"
  shows "\<not> list_ex (\<lambda>(a, m). length a \<noteq> length m) (zip x y)"
proof -
  have "length a = length m" if "(a, m) \<in> set (zip x y)" for a m
  proof -
    from that have "a \<in> set x" "m \<in> set y" by (auto dest: set_zip_leftD set_zip_rightD)
    with assms show ?thesis by (simp add: regular2_def list_all_iff)
  qed
  then show ?thesis unfolding list_ex_iff by blast
qed

lemma forward_attn_rows:
  assumes "regular2 B N attn" "regular2 B N masks"
  shows "forward_attn attn masks
     = sequence (map (\<lambda>b. softmax (masked_fill (attn ! b) (masks ! b))) [0..<B])"
proof -
  have l: "length attn = B" "length masks = B"
    using assms by (auto simp: regular2_def)
  have "map2 (\<lambda>a m. softmax (masked_fill a m)) attn masks
      = map (\<lambda>b. softmax (masked_fill (attn ! b) (masks ! b))) [0..<B]"
    using l by (intro nth_equalityI) simp_all
  then show ?thesis using l rows_agree[OF assms] by (simp add: forward_attn_def)
qed

lemma forward_attn_weights:
  assumes "regular2 B N attn" "regular2 B N masks"
    and "\<forall>b<B. \<exists>i<N. masks ! b ! i \<noteq> 0"
  shows "\<exists>w. forward_attn attn masks = Inr w \<and> regular2 B N w \<and>
     (\<forall>b<B. \<forall>i<N. masks ! b ! i = 0 \<longrightarrow> w ! b ! i = 0) \<and>
     (\<forall>b<B. (\<Sum>i | i < N \<and> masks ! b ! i \<noteq> 0. w ! b ! i) = 1)"
proof -
  have r: "\<And>b. b < B \<Longrightarrow> length (attn ! b) = N" "\<And>b. b < B \<Longrightarrow> length (masks ! b) = N"
    using assms(1,2) by (auto simp: regular2_def list_all_length)
  let ?P = "\<lambda>b w. softmax (masked_fill (attn ! b) (masks ! b)) = Inr w \<and> length w = N \<and>
           (\<forall>i<N. masks ! b ! i = 0 \<longrightarrow> w ! i = 0) \<and>
           (\<Sum>i | i < N \<and> masks ! b ! i \<noteq> 0. w ! i) = 1"
  have "\<exists>w. b < B \<longrightarrow> ?P b w" for b
  proof (cases "b < B")
    case True
    with assms(3) have "\<exists>i<N. masks ! b ! i \<noteq> 0" by blast
    from softmax_masked_row[OF r(1)[OF True] r(2)[OF True] this] True show ?thesis by blast
  qed simp
  then have "\<forall>b. \<exists>w. b < B \<longrightarrow> ?P b w" ..
  from choice[OF this] obtain f where f: "\<forall>b. b < B \<longrightarrow> ?P b (f b)" ..
  let ?w = "map f [0..<B]"
  have "map (\<lambda>b. softmax (masked_fill (attn ! b) (masks ! b))) [0..<B] = map Inr ?w"
    using f by simp
  then have "forward_attn attn masks = Inr ?w"
    unfolding forward_attn_rows[OF assms(1,2)] sequence_Inr .
  moreover have "regular2 B N ?w"
    using f by (simp add: regular2_def list_all_iff)
  moreover have "\<forall>b<B. \<forall>i<N. masks ! b ! i = 0 \<longrightarrow> ?w ! b ! i = 0"
    using f by simp
  moreover have "\<forall>b<B. (\<Sum>i | i < N \<and> masks ! b ! i \<noteq> 0. ?w ! b ! i) = 1"
    using f by simp
  ultimately show ?thesis by blast
qed

lemma forward_attn_NaN:
  assumes "regular2 B N attn" "regular2 B N masks" "0 < N" "b < B" "\<forall>i<N. masks ! b ! i = 0"
  shows "forward_attn attn masks = Inl NaN_value"
proof -
  have r: "length (attn ! b) = N" "length (masks ! b) = N"
    using assms(1,2,4) by (auto simp: regular2_def list_all_length)
  have "softmax (masked_fill (attn ! b) (masks ! b)) = Inl NaN_value"
    using softmax_all_masked[OF r assms(3,5)] .
  then have "Inl NaN_value \<in> set (map (\<lambda>b. softmax (masked_fill (attn ! b) (masks ! b))) [0..<B])"
    using assms(4) by (auto intro!: image_eqI[where x=b])
  then show ?thesis
    unfolding forward_attn_rows[OF assms(1,2)]
    by (rule sequence_Inl) (auto dest: softmax_error)
qed

lemma max_list_zeros: "\<forall>e\<in>set xs. e = 0 \<Longrightarrow> max_list xs = 0"
  by (induction xs rule: max_list.induct) auto

lemma zero_row_masks:
  assumes "regular3 B N N adj" "b < B" "\<forall>row\<in>set (adj ! b). \<forall>e\<in>set row. e = 0"
  shows "\<forall>i<N. map (map max_list) adj ! b ! i = 0"
proof (intro allI impI)
  have len: "length adj = B" and rows: "length (adj ! b) = N"
    using assms(1,2) by (auto simp: regular3_def regular2_def list_all_length)
  fix i assume i: "i < N"
  have "adj ! b ! i \<in> set (adj ! b)" using rows i by simp
  with assms(3) have "\<forall>e\<in>set (adj ! b ! i). e = 0" by blast
  then have "max_list (adj ! b ! i) = 0" by (rule max_list_zeros)
  then show "map (map max_list) adj ! b ! i = 0"
    using len rows assms(2) i by simp
qed

lemma forward_pool_regular:
  assumes "regular3 B N N adj" "0 < N" "regular2 B N attn" "regular2 B N hidden"
  shows "forward_pool adj attn hidden
       = Inr (forward_weighted hidden
                (map2 (\<lambda>a m. softmax (masked_fill a m)) attn (map (map max_list) adj))
                (forward_number_of_nodes (map (map max_list) adj)))"
proof -
  let ?masks = "map (map max_list) adj"
  have reg: "regular2 B N ?masks"
    using assms(1) by (auto simp: regular3_def regular2_def list_all_iff)
  have l: "length hidden = length ?masks" "length attn = length ?masks"
    using assms(1,3,4) by (simp_all add: regular2_def regular3_def)
  show ?thesis
    unfolding forward_pool_def forward_masks_Inr[OF assms(1,2)]
    by (simp only: sum.case Let_def l rows_agree[OF assms(4) reg] rows_agree[OF assms(3) reg]
          simp_thms if_False)
qed

lemma forward_weighted_nth:
  assumes "b < length hidden" "b < length attn" "b < length non"
  shows "forward_weighted hidden attn non ! b
       = (case attn ! b of
            Inl e \<Rightarrow> map (map (map (\<lambda>x. NaN))) (hidden ! b)
          | Inr w \<Rightarrow> map2 (\<lambda>hn an. map (map (\<lambda>x. Val (x * an * non ! b))) hn) (hidden ! b) w)"
  using assms by (simp add: forward_weighted_def)

lemma forward_weighted_length:
  "length (forward_weighted hidden attn non)
     = min (min (length hidden) (length attn)) (length non)"
  by (simp add: forward_weighted_def)

section \<open>Claims about the attention pool\<close>

text \<open>
  Claim C4, as amended. For an adjacency tensor \<open>B \<times> N \<times> N\<close> with \<open>N > 0\<close> and no
  negative entry, a node is treated as valid (its mask is not 0) iff its adjacency row
  holds a nonzero entry. The mask of a node is the maximum of its row, and
  \<open>number_of_nodes\<close> of a graph is the sum of its masks: it is the count of the valid
  nodes of every graph whose entries are all 0 or 1, not of a graph with other weights.
\<close>

theorem forward_masks_valid_nodes:
  assumes "regular3 B N N adj" "0 < N"
    and "\<forall>g\<in>set adj. \<forall>row\<in>set g. \<forall>e\<in>set row. 0 \<le> e"
  shows "\<exists>masks. forward_masks adj = Inr masks \<and> regular2 B N masks \<and>
     (\<forall>b<B. \<forall>i<N. (masks ! b ! i \<noteq> 0) = (\<exists>e\<in>set (adj ! b ! i). e \<noteq> 0)) \<and>
     (\<forall>b<B. (\<forall>row\<in>set (adj ! b). \<forall>e\<in>set row. e = 0 \<or> e = 1) \<longrightarrow>
        forward_number_of_nodes masks ! b = real (length (filter (\<lambda>m. m \<noteq> 0) (masks ! b))))"
proof -
  let ?masks = "map (map max_list) adj"
  have len: "length adj = B" and rows: "\<And>b. b < B \<Longrightarrow> length (adj ! b) = N"
    and cols: "\<And>b i. b < B \<Longrightarrow> i < N \<Longrightarrow> length (adj ! b ! i) = N"
    using assms(1) by (auto simp: regular3_def regular2_def list_all_length)
  have reg: "regular2 B N ?masks"
    using assms(1) by (auto simp: regular3_def regular2_def list_all_iff)
  have valid: "(?masks ! b ! i \<noteq> 0) = (\<exists>e\<in>set (adj ! b ! i). e \<noteq> 0)" if "b < B" "i < N" for b i
  proof -
    have "adj ! b ! i \<noteq> []" using cols[OF that] assms(2) by auto
    moreover have "\<forall>e\<in>set (adj ! b ! i). 0 \<le> e"
      using assms(3) that len rows by (metis nth_mem)
    ultimately show ?thesis using that len rows by (simp add: max_list_nonzero)
  qed
  have count: "forward_number_of_nodes ?masks ! b
      = real (length (filter (\<lambda>m. m \<noteq> 0) (?masks ! b)))"
    if "b < B" and bin: "\<forall>row\<in>set (adj ! b). \<forall>e\<in>set row. e = 0 \<or> e = 1" for b
  proof -
    have "\<forall>m\<in>set (map max_list (adj ! b)). m = 0 \<or> m = 1"
    proof
      fix m assume "m \<in> set (map max_list (adj ! b))"
      then obtain row where r: "row \<in> set (adj ! b)" "m = max_list row" by auto
      then obtain i where "i < N" "row = adj ! b ! i"
        using rows[OF \<open>b < B\<close>] by (metis in_set_conv_nth)
      then have "row \<noteq> []" using cols[OF \<open>b < B\<close>, of i] assms(2) by auto
      with bin r show "m = 0 \<or> m = 1" using max_list_binary by blast
    qed
    then show ?thesis using that(1) len
      by (simp add: forward_number_of_nodes_def sum_list_binary)
  qed
  show ?thesis
    using forward_masks_Inr[OF assms(1,2)] reg valid count by blast
qed

theorem forward_masks_valid_nodes_witness:
  "regular3 1 2 2 [[[0, 1], [1, 0]]]
   \<and> forward_masks [[[0, 1], [1, 0]]] = Inr [[1, 1]]
   \<and> ([[1, 1 :: real]] ! 0 ! 0 \<noteq> 0) = (\<exists>e\<in>set ([[[0, 1], [1, 0 :: real]]] ! 0 ! 0). e \<noteq> 0)
   \<and> forward_number_of_nodes [[1, 1]] ! 0
       = real (length (filter (\<lambda>m. m \<noteq> 0) ([[1, 1 :: real]] ! 0)))"
proof -
  have r: "regular3 1 2 2 [[[0, 1], [1, 0]]]" "(0::nat) < 2"
    "\<forall>g\<in>set [[[0, 1], [1, 0 :: real]]]. \<forall>row\<in>set g. \<forall>e\<in>set row. 0 \<le> e"
    by (simp_all add: regular3_def regular2_def)
  have m: "forward_masks [[[0, 1], [1, 0]]] = Inr [[1, 1]]"
    by (simp add: forward_masks_def)
  from forward_masks_valid_nodes[OF r] obtain masks where
    k: "forward_masks [[[0, 1], [1, 0]]] = Inr masks"
    and v: "\<forall>b<1. \<forall>i<2. (masks ! b ! i \<noteq> 0) = (\<exists>e\<in>set ([[[0, 1], [1, 0 :: real]]] ! b ! i). e \<noteq> 0)"
    and c: "\<forall>b<1. (\<forall>row\<in>set ([[[0, 1], [1, 0 :: real]]] ! b). \<forall>e\<in>set row. e = 0 \<or> e = 1) \<longrightarrow>
        forward_number_of_nodes masks ! b = real (length (filter (\<lambda>m. m \<noteq> 0) (masks ! b)))"
    by blast
  from k m have e: "masks = [[1, 1]]" by simp
  from v have "(masks ! 0 ! 0 \<noteq> 0) = (\<exists>e\<in>set ([[[0, 1], [1, 0 :: real]]] ! 0 ! 0). e \<noteq> 0)"
    by simp
  moreover from c have "forward_number_of_nodes masks ! 0
      = real (length (filter (\<lambda>m. m \<noteq> 0) (masks ! 0)))"
    by simp
  ultimately show ?thesis using r(1) m unfolding e by blast
qed

text \<open>
  The claim as stated fails on a weighted adjacency: two nodes joined by an edge of weight
  2 are both valid, and \<open>number_of_nodes\<close> is 4.
\<close>

theorem forward_masks_weighted_counterexample:
  "forward_masks [[[0, 2], [2, 0]]] = Inr [[2, 2]]
   \<and> forward_number_of_nodes [[2, 2]] ! 0 = 4
   \<and> forward_number_of_nodes [[2, 2]] ! 0
       \<noteq> real (length (filter (\<lambda>m. m \<noteq> 0) ([[2, 2 :: real]] ! 0)))"
  by (simp add: forward_masks_def forward_number_of_nodes_def)

text \<open>
  Claim C1. For a batch \<open>B \<times> N \<times> N\<close> with masks as line 77 computes them and one logit
  per node, in which every graph has a node whose mask is not 0: the masked softmax of
  line 96 returns weights, the weight of every node whose mask is 0 is exactly 0, and the
  weights of the valid nodes of each graph sum to 1.
\<close>

theorem forward_attn_masked:
  assumes "regular3 B N N adj" "0 < N" "regular2 B N attn"
    and "forward_masks adj = Inr masks"
    and "\<forall>b<B. \<exists>i<N. masks ! b ! i \<noteq> 0"
  shows "\<exists>w. forward_attn attn masks = Inr w \<and> regular2 B N w \<and>
     (\<forall>b<B. \<forall>i<N. masks ! b ! i = 0 \<longrightarrow> w ! b ! i = 0) \<and>
     (\<forall>b<B. (\<Sum>i | i < N \<and> masks ! b ! i \<noteq> 0. w ! b ! i) = 1)"
proof -
  from assms(4) have "masks = map (map max_list) adj"
    unfolding forward_masks_Inr[OF assms(1,2)] by simp
  then have "regular2 B N masks"
    using assms(1) by (auto simp: regular3_def regular2_def list_all_iff)
  from forward_attn_weights[OF assms(3) this assms(5)] show ?thesis .
qed

theorem forward_attn_masked_witness:
  "regular3 1 3 3 [[[0, 1, 0], [1, 0, 0], [0, 0, 0]]]
   \<and> forward_masks [[[0, 1, 0], [1, 0, 0], [0, 0, 0]]] = Inr [[1, 1, 0]]
   \<and> (\<exists>w. forward_attn [[0, 0, 5]] [[1, 1, 0]] = Inr w \<and> w ! 0 ! 2 = 0
          \<and> (\<Sum>i | i < 3 \<and> [[1, 1, 0 :: real]] ! 0 ! i \<noteq> 0. w ! 0 ! i) = 1)"
proof -
  have r: "regular3 1 3 3 [[[0, 1, 0], [1, 0, 0], [0, 0, 0]]]" "(0::nat) < 3"
       "regular2 1 3 [[0, 0, 5 :: real]]"
    by (simp_all add: regular3_def regular2_def)
  have m: "forward_masks [[[0, 1, 0], [1, 0, 0], [0, 0, 0]]] = Inr [[1, 1, 0]]"
    by (simp add: forward_masks_def)
  have v: "\<forall>b<1. \<exists>i<3. [[1, 1, 0 :: real]] ! b ! i \<noteq> 0"
    by (auto intro: exI[of _ 0])
  from forward_attn_masked[OF r m v] obtain w where
    w: "forward_attn [[0, 0, 5]] [[1, 1, 0]] = Inr w"
       "\<forall>b<1. \<forall>i<3. [[1, 1, 0 :: real]] ! b ! i = 0 \<longrightarrow> w ! b ! i = 0"
       "\<forall>b<1. (\<Sum>i | i < 3 \<and> [[1, 1, 0 :: real]] ! b ! i \<noteq> 0. w ! b ! i) = 1"
    by blast
  from w(2) have "w ! 0 ! 2 = 0" by simp
  moreover from w(3) have "(\<Sum>i | i < 3 \<and> [[1, 1, 0 :: real]] ! 0 ! i \<noteq> 0. w ! 0 ! i) = 1"
    by simp
  ultimately show ?thesis using r(1) m w(1) by blast
qed

text \<open>
  Claim C7, as amended. For a batch \<open>B \<times> N \<times> N\<close> in which the adjacency of one graph
  is all 0, lines 96 and 97 raise no exception and have no guard: every logit of that
  graph is masked, its softmax is \<open>0 / 0\<close>, so the attention weights of the batch hold
  NaN, and every entry of the attention-weighted output of that graph is NaN, not 0. The
  tensor is handed to the capsule layers as it is.
\<close>

theorem forward_pool_zero_nodes:
  assumes "regular3 B N N adj" "0 < N" "regular2 B N attn" "regular2 B N hidden"
    and "b < B" "\<forall>row\<in>set (adj ! b). \<forall>e\<in>set row. e = 0"
  shows "\<exists>masks pooled. forward_masks adj = Inr masks
           \<and> forward_attn attn masks = Inl NaN_value
           \<and> forward_pool adj attn hidden = Inr pooled \<and> length pooled = B
           \<and> pooled ! b = map (map (map (\<lambda>x. NaN))) (hidden ! b)"
proof -
  let ?masks = "map (map max_list) adj"
  let ?attn = "map2 (\<lambda>a m. softmax (masked_fill a m)) attn ?masks"
  let ?pooled = "forward_weighted hidden ?attn (forward_number_of_nodes ?masks)"
  have reg: "regular2 B N ?masks"
    using assms(1) by (auto simp: regular3_def regular2_def list_all_iff)
  have len: "length adj = B" "length attn = B" "length hidden = B"
    using assms(1,3,4) by (simp_all add: regular3_def regular2_def)
  have r: "length (attn ! b) = N" "length (?masks ! b) = N"
    using assms(3,5) reg by (auto simp: regular2_def list_all_length)
  note z = zero_row_masks[OF assms(1,5,6)]
  have "softmax (masked_fill (attn ! b) (?masks ! b)) = Inl NaN_value"
    using r assms(2) z by (rule softmax_all_masked)
  then have "?attn ! b = Inl NaN_value"
    using assms(5) len by simp
  then have "?pooled ! b = map (map (map (\<lambda>x. NaN))) (hidden ! b)"
    using assms(5) len by (simp add: forward_weighted_nth forward_number_of_nodes_def)
  moreover have "length ?pooled = B"
    using len by (simp add: forward_weighted_length forward_number_of_nodes_def)
  moreover note forward_masks_Inr[OF assms(1,2)]
    forward_attn_NaN[OF assms(3) reg assms(2,5) z]
    forward_pool_regular[OF assms(1-4)]
  ultimately show ?thesis by blast
qed

theorem forward_pool_zero_nodes_witness:
  "regular3 2 2 2 ex_adj_empty_graph
   \<and> forward_masks ex_adj_empty_graph = Inr [[0, 0], [1, 1]]
   \<and> forward_attn [[0, 0], [0, 0]] [[0, 0], [1, 1]] = Inl NaN_value
   \<and> forward_pool ex_adj_empty_graph [[0, 0], [0, 0]] [[[[1]], [[1]]], [[[1]], [[1]]]]
       = Inr [[[[NaN]], [[NaN]]], [[[Val 1]], [[Val 1]]]]"
proof -
  have r: "regular3 2 2 2 ex_adj_empty_graph" "(0::nat) < 2"
    "regular2 2 2 [[0, 0], [0, 0 :: real]]"
    "regular2 2 2 [[[[1]], [[1]]], [[[1]], [[1 :: real]]]]"
    "(0::nat) < 2"
    by (simp_all add: regular3_def regular2_def ex_adj_empty_graph_def)
  have z: "\<forall>row\<in>set (ex_adj_empty_graph ! 0). \<forall>e\<in>set row. e = 0"
    by (simp add: ex_adj_empty_graph_def)
  from forward_pool_zero_nodes[OF r z] obtain masks pooled where
    m: "forward_masks ex_adj_empty_graph = Inr masks" and
    a: "forward_attn [[0, 0], [0, 0]] masks = Inl NaN_value" and
    p: "forward_pool ex_adj_empty_graph [[0, 0], [0, 0]] [[[[1]], [[1]]], [[[1]], [[1]]]]
          = Inr pooled"
    by blast
  have m': "forward_masks ex_adj_empty_graph = Inr [[0, 0], [1, 1]]"
    by (simp add: forward_masks_def ex_adj_empty_graph_def)
  have p': "forward_pool ex_adj_empty_graph [[0, 0], [0, 0]] [[[[1]], [[1]]], [[[1]], [[1]]]]
          = Inr [[[[NaN]], [[NaN]]], [[[Val 1]], [[Val 1]]]]"
    by (simp add: forward_pool_def forward_masks_def forward_number_of_nodes_def
        forward_weighted_def masked_fill_def softmax_def Let_def ex_adj_empty_graph_def)
  from m m' a have "forward_attn [[0, 0], [0, 0]] [[0, 0], [1, 1]] = Inl NaN_value" by simp
  with r(1) m' p' show ?thesis by blast
qed

text \<open>
  The claim as stated fails: for one graph of two nodes without an edge every entry of
  the pooled output is NaN, not 0.
\<close>

theorem forward_pool_zero_nodes_counterexample:
  "forward_pool [[[0, 0], [0, 0]]] [[0, 0]] [[[[1]], [[1]]]] = Inr [[[[NaN]], [[NaN]]]]
   \<and> forward_pool [[[0, 0], [0, 0]]] [[0, 0]] [[[[1]], [[1]]]] \<noteq> Inr [[[[Val 0]], [[Val 0]]]]"
  by (simp add: forward_pool_def forward_masks_def forward_number_of_nodes_def
      forward_weighted_def masked_fill_def softmax_def Let_def)

text \<open>
  What the forward pass makes of the NaN entries is up to the capsule layers and to
  \<^verbatim>\<open>calculate_loss\<close>. With the stand-in layers, which do not read the pooled tensor,
  the batch of two graphs above gets finite losses.
\<close>

lemma ex_forward_empty_graph:
  "\<exists>rl. forward ex_layers ex_args ex_model ex_adj_empty_graph [[[1], [1]], [[1], [1]]]
           ex_target ex_reconstructs
         = Inr (of3 [[[1, 0], [0, 0]], [[1, 0], [0, 0]]],
                243 / 400 + rl * (1 / 10), 243 / 400, rl, ex_target, [0, 0])"
proof -
  have p: "forward_pool ex_adj_empty_graph
      (attention ex_layers (gcn_hidden ex_layers ex_adj_empty_graph [[[1], [1]], [[1], [1]]]))
      (gcn_hidden ex_layers ex_adj_empty_graph [[[1], [1]], [[1], [1]]])
    = Inr [[[[NaN]], [[NaN]]], [[[Val 1]], [[Val 1]]]]"
    by (simp add: forward_pool_def forward_masks_def forward_number_of_nodes_def
        forward_weighted_def masked_fill_def softmax_def Let_def ex_adj_empty_graph_def
        ex_layers_def)
  have m: "forward_masks ex_adj_empty_graph = Inr [[0, 0], [1, 1]]"
    by (simp add: forward_masks_def ex_adj_empty_graph_def)
  have c: "squeeze (class_capsule ex_layers (graph_capsule ex_layers
             [[[[NaN]], [[NaN]]], [[[Val 1]], [[Val 1]]]] (forward_number_of_nodes [[0, 0], [1, 1]])))
         = of3 [[[1, 0], [0, 0]], [[1, 0], [0, 0]]]"
    by (simp add: ex_layers_def of3_def of2_def of1_def)
  have s: "shape (of3 [[[1, 0], [0, 0]], [[1, 0], [0, 0]]]) = [2, 2, 2]"
    "squeeze (of3 [[[1, 0], [0, 0]], [[1, 0], [0, 0]]]) = of3 [[[1, 0], [0, 0]], [[1, 0], [0, 0]]]"
    by (simp_all add: of3_def of2_def of1_def)
  have "\<exists>rl. calculate_loss ex_args ex_model (of3 [[[1, 0], [0, 0]], [[1, 0], [0, 0]]])
              ex_target ex_reconstructs
            = Inr (243 / 400 + rl * (1 / 10), 243 / 400, rl, [0, 0])"
    unfolding calculate_loss_def calculate_loss_with_alt s finite_part_of3 as3_of3 has_nan_of3
    by (simp add: ex_target_def ex_reconstructs_def ex_model_def ex_args_def
      T_c_of_def masked_part_def sum_rows_def linear_batch_def linear_apply_def relu_def
      sigmoid_def same_shape_def epsilon_def v_mag_of_def margin_part_def zip_with2_def
      mean_def argmax_def eval_nat_numeral)
  then obtain rl where "calculate_loss ex_args ex_model (of3 [[[1, 0], [0, 0]], [[1, 0], [0, 0]]])
              ex_target ex_reconstructs
            = Inr (243 / 400 + rl * (1 / 10), 243 / 400, rl, [0, 0])" ..
  then show ?thesis
    unfolding forward_def by (simp add: m p c Let_def)
qed

section \<open>Claim about a batch of one graph\<close>

lemma calculate_loss_low_rank:
  assumes "length (shape (squeeze t)) < 3"
  shows "calculate_loss args self (squeeze t) target reconstructs = Inl IndexError"
  unfolding calculate_loss_def calculate_loss_with_alt squeeze_idem
  using assms by simp

lemma forward_pool_masks:
  "forward_pool adj attn hidden = Inr h \<Longrightarrow> \<exists>masks. forward_masks adj = Inr masks"
  by (auto simp: forward_pool_def split: sum.splits)

text \<open>
  Claim C8 does not hold of the code. When the class capsule layer returns the capsules
  of a single graph, a tensor \<open>1 \<times> C \<times> D\<close>, the \<^verbatim>\<open>squeeze()\<close> of line 102 removes the
  batch dimension as well, \<^verbatim>\<open>calculate_loss\<close> receives a tensor of rank at most 2, and
  the sum over \<^verbatim>\<open>dim=2\<close> of line 115 raises IndexError: the forward pass returns no
  loss. The witness is the scenario of the claim: one graph of three fully connected
  nodes, two classes, label 0 and target \<open>[1, 0, 0.5]\<close>.
\<close>

theorem forward_single_graph_raises:
  assumes "forward_masks adj = Inr masks"
    and "forward_pool adj (attention layers (gcn_hidden layers adj features))
             (gcn_hidden layers adj features) = Inr hidden"
    and "class_capsule layers (graph_capsule layers hidden (forward_number_of_nodes masks))
           = of3 [m]"
  shows "forward layers args self adj features label reconstructs = Inl IndexError"
proof -
  have "length (shape (squeeze (of3 [m]))) \<le> 2"
    using rank_squeeze_le[of "of2 m"] rank_of2[of m] by (simp add: of3_def)
  then have "calculate_loss args self (squeeze (of3 [m])) label reconstructs = Inl IndexError"
    by (intro calculate_loss_low_rank) simp
  then show ?thesis
    unfolding forward_def by (simp add: assms Let_def)
qed

lemma ex_pool: "forward_pool ex_adj_triangle
    (attention ex_layers (gcn_hidden ex_layers ex_adj_triangle [[[1], [1], [1]]]))
    (gcn_hidden ex_layers ex_adj_triangle [[[1], [1], [1]]])
   = Inr [[[[Val 1]], [[Val 1]], [[Val 1]]]]"
  by (simp add: ex_adj_triangle_def forward_pool_def forward_masks_def forward_number_of_nodes_def
      forward_weighted_def masked_fill_def softmax_def ex_layers_def Let_def)

theorem forward_single_graph_raises_witness:
  "forward_masks ex_adj_triangle = Inr [[1, 1, 1]]
   \<and> forward_pool ex_adj_triangle
    (attention ex_layers (gcn_hidden ex_layers ex_adj_triangle [[[1], [1], [1]]]))
    (gcn_hidden ex_layers ex_adj_triangle [[[1], [1], [1]]])
   = Inr [[[[Val 1]], [[Val 1]], [[Val 1]]]]
   \<and> class_capsule ex_layers (graph_capsule ex_layers [[[[Val 1]], [[Val 1]], [[Val 1]]]]
         (forward_number_of_nodes [[1, 1, 1]])) = of3 [[[1, 0], [0, 0]]]
   \<and> forward ex_layers ex_args (ex_model\<lparr>recon_dim := 3,
         reconstruction_layer_2 := [([0], 0), ([0], 0), ([0], 0)]\<rparr>)
       ex_adj_triangle [[[1], [1], [1]]] [0] [[1, 0, 1 / 2]] = Inl IndexError"
proof -
  have m: "forward_masks ex_adj_triangle = Inr [[1, 1, 1]]"
    by (simp add: forward_masks_def ex_adj_triangle_def)
  have c: "class_capsule ex_layers (graph_capsule ex_layers [[[[Val 1]], [[Val 1]], [[Val 1]]]]
         (forward_number_of_nodes [[1, 1, 1]])) = of3 [[[1, 0], [0, 0]]]"
    by (simp add: ex_layers_def)
  from forward_single_graph_raises[OF m ex_pool c] m ex_pool c show ?thesis by blast
qed

section \<open>The margin loss\<close>

lemma calculate_loss_with_of3:
  assumes "regular3 B C D caps"
    and "calculate_loss_with eps thr args self (of3 caps) target reconstructs
           = Inr (loss, margin_loss, reconstruction_loss, pred)"
  obtains T_c hidden out where
    "2 \<le> B" "2 \<le> C" "D \<noteq> 1"
    "T_c_of B C target = Inr T_c"
    "linear_batch (reconstruction_layer_1 self) (masked_part D caps T_c) = Inr hidden"
    "linear_batch (reconstruction_layer_2 self) (map (map relu) hidden) = Inr out"
    "\<not> list_ex (\<lambda>row. row = []) reconstructs"
    "same_shape (map (map sigmoid) out) reconstructs"
    "\<not> list_ex (\<lambda>m. m + eps = 0) (map max_list reconstructs)"
    "margin_loss = margin_part (lambda_val args) (v_mag_of caps) T_c"
    "reconstruction_loss = recon_part eps thr (map (map sigmoid) out) reconstructs"
    "loss = margin_loss + reconstruction_loss * reg_scale args"
    "pred = map argmax (v_mag_of caps)"
proof -
  from assms(2) have "3 \<le> length (shape (squeeze (of3 caps)))"
    unfolding calculate_loss_with_alt by (auto split: if_splits)
  from rank_squeeze_of3[OF assms(1) this] have d: "2 \<le> B" "2 \<le> C" "D \<noteq> 1" by auto
  then have s: "shape (of3 caps) = [B, C, D]" "squeeze (of3 caps) = of3 caps"
    using assms(1) by (auto simp: shape_of3 squeeze_of3)
  from assms(2) show ?thesis
    unfolding calculate_loss_with_alt s finite_part_of3 as3_of3 has_nan_of3
    using d that by (auto split: if_splits sum.splits)
qed

lemma zip_with2_nth:
  "b < length x \<Longrightarrow> b < length y \<Longrightarrow> zip_with2 f x y ! b = map2 f (x ! b) (y ! b)"
  by (simp add: zip_with2_def)

lemma zip_with2_length: "length (zip_with2 f x y) = min (length x) (length y)"
  by (simp add: zip_with2_def)

lemma sum_list_upt_nth: "sum_list xs = (\<Sum>i\<leftarrow>[0..<length xs]. xs ! i)"
  by (simp add: map_nth)

lemma margin_part_spec:
  assumes "regular3 B C D caps" "length labels = B"
  shows "margin_part lam (v_mag_of caps) (map (\<lambda>l. map (one_hot l) [0..<C]) labels)
       = spec_margin_loss lam caps labels"
proof -
  have len: "length caps = B" and rows: "\<And>b. b < B \<Longrightarrow> length (caps ! b) = C"
    using assms(1) by (auto simp: regular3_def regular2_def list_all_length)
  let ?T = "map (\<lambda>l. map (one_hot l) [0..<C]) labels"
  let ?L = "zip_with2 (+)
          (zip_with2 (*) ?T (map (map (\<lambda>v. (max (9 / 10 - v) 0) ^ 2)) (v_mag_of caps)))
          (zip_with2 (*) (map (map (\<lambda>t. lam * (1 - t))) ?T)
             (map (map (\<lambda>v. (max (v - 1 / 10) 0) ^ 2)) (v_mag_of caps)))"
  let ?summand = "\<lambda>b c. spec_margin_term lam (one_hot (labels ! b) c) (capsule_norm (caps ! b ! c))"
  have row: "?L ! b = map (?summand b) [0..<C]" if "b < B" for b
    using that len rows[OF that] assms(2)
    by (intro nth_equalityI)
       (simp_all add: zip_with2_nth zip_with2_length v_mag_of_def spec_margin_term_def
          capsule_norm_def max.commute)
  have lenL: "length ?L = B"
    using len assms(2) by (simp add: zip_with2_length v_mag_of_def)
  have "map sum_list ?L = map (\<lambda>b. sum_list (?L ! b)) [0..<length ?L]"
    by (intro nth_equalityI) simp_all
  also have "\<dots> = map (\<lambda>b. sum_list (?L ! b)) [0..<B]"
    by (simp only: lenL)
  also have "\<dots> = map (\<lambda>b. sum_list (map (?summand b) [0..<C])) [0..<B]"
  proof (rule map_cong[OF refl])
    fix b assume "b \<in> set [0..<B]"
    then have "b < B" by simp
    from row[OF this] show "sum_list (?L ! b) = sum_list (map (?summand b) [0..<C])"
      by (rule arg_cong)
  qed
  also have "\<dots> = map (\<lambda>b. \<Sum>c\<leftarrow>[0..<length (caps ! b)]. ?summand b c) [0..<length caps]"
    using len rows by (intro nth_equalityI) simp_all
  finally have m: "map sum_list ?L
     = map (\<lambda>b. \<Sum>c\<leftarrow>[0..<length (caps ! b)]. ?summand b c) [0..<length caps]" .
  have "margin_part lam (v_mag_of caps) ?T = sum_list (map sum_list ?L) / real (length ?L)"
    by (simp only: margin_part_def mean_def length_map)
  then show ?thesis
    by (simp only: m lenL len spec_margin_loss_def)
qed

lemma sum_list_zero_terms:
  assumes "(\<Sum>i\<leftarrow>[0..<n]. f i) = (0::real)" "\<forall>i<n. 0 \<le> f i" "i < n"
  shows "f i = 0"
proof -
  have "\<forall>x\<in>set (map f [0..<n]). x = 0"
    using assms(1,2) by (subst sum_list_nonneg_eq_0_iff[symmetric]) auto
  with assms(3) show ?thesis by auto
qed

lemma spec_margin_term_nonneg:
  "0 \<le> lam \<Longrightarrow> 0 \<le> spec_margin_term lam (one_hot l c) v"
  by (simp add: spec_margin_term_def one_hot_def)

lemma spec_margin_loss_zero:
  assumes "regular3 B C D caps" "0 < lam" "spec_margin_loss lam caps labels = 0"
    and "b < B" "c < C"
  shows "if c = labels ! b then 9 / 10 \<le> capsule_norm (caps ! b ! c)
         else capsule_norm (caps ! b ! c) \<le> 1 / 10"
proof -
  have len: "length caps = B" and rows: "\<And>b. b < B \<Longrightarrow> length (caps ! b) = C"
    using assms(1) by (auto simp: regular3_def regular2_def list_all_length)
  let ?summand = "\<lambda>b c. spec_margin_term lam (one_hot (labels ! b) c) (capsule_norm (caps ! b ! c))"
  let ?row = "\<lambda>b. \<Sum>c\<leftarrow>[0..<length (caps ! b)]. ?summand b c"
  have t: "0 \<le> ?summand b c" for b c
    using assms(2) by (intro spec_margin_term_nonneg) simp
  have r: "0 \<le> ?row b" for b
    using t by (intro sum_list_nonneg) auto
  have "B \<noteq> 0" using assms(4) by auto
  with assms(3) have "(\<Sum>b\<leftarrow>[0..<B]. ?row b) = 0"
    by (simp add: spec_margin_loss_def len)
  from sum_list_zero_terms[OF this _ assms(4)] r have "?row b = 0" by blast
  then have "(\<Sum>c\<leftarrow>[0..<C]. ?summand b c) = 0" using rows[OF assms(4)] by simp
  from sum_list_zero_terms[OF this _ assms(5)] t have z: "?summand b c = 0" by blast
  show ?thesis
  proof (cases "c = labels ! b")
    case True
    with z have "(max 0 (9 / 10 - capsule_norm (caps ! b ! c)))\<^sup>2 = 0"
      by (simp add: spec_margin_term_def one_hot_def)
    with True show ?thesis by simp
  next
    case False
    with z assms(2) have "(max 0 (capsule_norm (caps ! b ! c) - 1 / 10))\<^sup>2 = 0"
      by (simp add: spec_margin_term_def one_hot_def)
    with False show ?thesis by simp
  qed
qed

text \<open>
  Claim C2. For a class-capsule tensor \<open>B \<times> C \<times> D\<close> and labels in \<open>[0, C)\<close>, one per
  graph, the margin loss that \<^verbatim>\<open>calculate_loss\<close> returns is the mean over the batch of
  the sum over the classes of
  \<open>T\<^sub>c * max(0, 0.9 - v)\<^sup>2 + lambda_val * (1 - T\<^sub>c) * max(0, v - 0.1)\<^sup>2\<close>, with \<open>v\<close> the
  norm of the class capsule and \<open>T\<^sub>c\<close> the one-hot encoding of the label.
\<close>

theorem calculate_loss_margin:
  assumes "regular3 B C D caps" "length target = B" "\<forall>t\<in>set target. 0 \<le> t \<and> t < int C"
    and "calculate_loss args self (of3 caps) target reconstructs
           = Inr (loss, margin_loss, reconstruction_loss, pred)"
  shows "margin_loss = spec_margin_loss (lambda_val args) caps (map nat target)"
proof -
  from assms(4) obtain T_c where
    T: "T_c_of B C target = Inr T_c" and
    m: "margin_loss = margin_part (lambda_val args) (v_mag_of caps) T_c"
    unfolding calculate_loss_def by (rule calculate_loss_with_of3[OF assms(1)])
  from T have "T_c = map (\<lambda>l. map (one_hot l) [0..<C]) (map nat target)"
    unfolding T_c_of_labels[OF assms(2,3)] by (simp add: comp_def)
  with m show ?thesis
    using margin_part_spec[OF assms(1), of "map nat target"] assms(2) by simp
qed

theorem calculate_loss_margin_witness:
  "regular3 2 2 2 ex_caps \<and> length ex_target = 2
   \<and> (\<exists>rl. calculate_loss ex_args ex_model (of3 ex_caps) ex_target ex_reconstructs
             = Inr (0 + rl * (1 / 10), 0, rl, [0, 1]))
   \<and> 0 = spec_margin_loss (lambda_val ex_args) ex_caps (map nat ex_target)"
proof -
  have r: "regular3 2 2 2 ex_caps" "length ex_target = 2"
    "\<forall>t\<in>set ex_target. 0 \<le> t \<and> t < int 2"
    by (simp_all add: regular3_def regular2_def ex_caps_def ex_target_def)
  from ex_returns obtain rl where
    e: "calculate_loss ex_args ex_model (of3 ex_caps) ex_target ex_reconstructs
          = Inr (0 + rl * (1 / 10), 0, rl, [0, 1])" ..
  from calculate_loss_margin[OF r e] r(1,2) e show ?thesis by blast
qed

text \<open>
  Claim C5, as amended. With \<open>lambda_val > 0\<close>, and for labels in \<open>[0, C)\<close>, the margin
  loss that \<^verbatim>\<open>calculate_loss\<close> returns is 0 only when in every graph the norm of the
  true-class capsule is at least 0.9 and the norm of every other class capsule is at most
  0.1.
\<close>

theorem margin_loss_zero_only_when:
  assumes "regular3 B C D caps" "length target = B" "\<forall>t\<in>set target. 0 \<le> t \<and> t < int C"
    and "0 < lambda_val args"
    and "calculate_loss args self (of3 caps) target reconstructs
           = Inr (loss, 0, reconstruction_loss, pred)"
  shows "\<forall>b<B. \<forall>c<C. if c = nat (target ! b) then 9 / 10 \<le> capsule_norm (caps ! b ! c)
                       else capsule_norm (caps ! b ! c) \<le> 1 / 10"
proof (intro allI impI)
  fix b c assume b: "b < B" and c: "c < C"
  from assms(5) obtain T_c where
    T: "T_c_of B C target = Inr T_c" and
    m: "0 = margin_part (lambda_val args) (v_mag_of caps) T_c"
    unfolding calculate_loss_def by (rule calculate_loss_with_of3[OF assms(1)])
  from T have "T_c = map (\<lambda>l. map (one_hot l) [0..<C]) (map nat target)"
    unfolding T_c_of_labels[OF assms(2,3)] by (simp add: comp_def)
  with m have "spec_margin_loss (lambda_val args) caps (map nat target) = 0"
    using margin_part_spec[OF assms(1), of "map nat target"] assms(2) by simp
  from spec_margin_loss_zero[OF assms(1,4) this b c] b assms(2)
  show "if c = nat (target ! b) then 9 / 10 \<le> capsule_norm (caps ! b ! c)
        else capsule_norm (caps ! b ! c) \<le> 1 / 10"
    by simp
qed

theorem margin_loss_zero_only_when_witness:
  "regular3 2 2 2 ex_caps \<and> length ex_target = 2 \<and> 0 < lambda_val ex_args
   \<and> (\<exists>rl. calculate_loss ex_args ex_model (of3 ex_caps) ex_target ex_reconstructs
             = Inr (0 + rl * (1 / 10), 0, rl, [0, 1]))
   \<and> 9 / 10 \<le> capsule_norm (ex_caps ! 0 ! 0) \<and> capsule_norm (ex_caps ! 0 ! 1) \<le> 1 / 10"
proof -
  have r: "regular3 2 2 2 ex_caps" "length ex_target = 2"
    "\<forall>t\<in>set ex_target. 0 \<le> t \<and> t < int 2" "0 < lambda_val ex_args"
    by (simp_all add: regular3_def regular2_def ex_caps_def ex_target_def ex_args_def)
  from ex_returns obtain rl where
    e: "calculate_loss ex_args ex_model (of3 ex_caps) ex_target ex_reconstructs
          = Inr (0 + rl * (1 / 10), 0, rl, [0, 1])" ..
  note a = margin_loss_zero_only_when[OF r e, rule_format]
  from a[of 0 0] have "9 / 10 \<le> capsule_norm (ex_caps ! 0 ! 0)"
    by (simp add: ex_target_def)
  moreover from a[of 0 1] have "capsule_norm (ex_caps ! 0 ! 1) \<le> 1 / 10"
    by (simp add: ex_target_def)
  ultimately show ?thesis using r(1,2,4) e by blast
qed

text \<open>
  The claim as stated fails for \<open>lambda_val = 0\<close>: every capsule of the batch below has
  norm 1, the margin loss is 0, and the capsule of the class that is not the true one has
  a norm above 0.1.
\<close>

theorem margin_loss_zero_only_when_counterexample:
  "(\<exists>rl. calculate_loss (ex_args\<lparr>lambda_val := 0\<rparr>) ex_model
            (of3 [[[1, 0], [1, 0]], [[1, 0], [1, 0]]]) ex_target ex_reconstructs
          = Inr (0 + rl * (1 / 10), 0, rl, [0, 0]))
   \<and> \<not> capsule_norm ([[[1, 0], [1, 0]], [[1, 0], [1, 0]]] ! 0 ! 1) \<le> 1 / 10"
proof -
  have s: "shape (of3 [[[1, 0], [1, 0]], [[1, 0], [1, 0]]]) = [2, 2, 2]"
    "squeeze (of3 [[[1, 0], [1, 0]], [[1, 0], [1, 0]]]) = of3 [[[1, 0], [1, 0]], [[1, 0], [1, 0]]]"
    by (simp_all add: of3_def of2_def of1_def)
  show ?thesis
    unfolding calculate_loss_def calculate_loss_with_alt s finite_part_of3 as3_of3 has_nan_of3
    by (simp add: ex_target_def ex_reconstructs_def ex_model_def ex_args_def
      T_c_of_def masked_part_def sum_rows_def linear_batch_def linear_apply_def relu_def
      sigmoid_def same_shape_def epsilon_def v_mag_of_def margin_part_def zip_with2_def
      mean_def argmax_def capsule_norm_def eval_nat_numeral)
qed

section \<open>Rescaling the reconstruction target\<close>

lemma max_list_scale: "0 \<le> c \<Longrightarrow> max_list (map (\<lambda>r. c * r) row) = c * max_list row"
  by (induction row rule: max_list.induct) (simp_all add: max_mult_distrib_left)

lemma same_shape_scale:
  "same_shape out (map (map f) reconstructs) = same_shape out reconstructs"
  by (simp add: same_shape_def list_all2_map2)

lemma empty_row_scale:
  "list_ex (\<lambda>row. row = []) (map (map f) reconstructs) = list_ex (\<lambda>row. row = []) reconstructs"
  by (auto simp: list_ex_iff)

lemma zero_denominator_scale:
  assumes "0 < c"
  shows "list_ex (\<lambda>m. m + eps = 0) (map max_list (map (map (\<lambda>r. c * r)) reconstructs))
       = list_ex (\<lambda>m. m + eps / c = 0) (map max_list reconstructs)"
proof -
  have "(c * m + eps = 0) = (m + eps / c = 0)" for m
    using assms by (simp add: field_simps)
  then show ?thesis
    using assms by (simp add: list_ex_iff max_list_scale)
qed

lemma reconstruct_value_scale:
  assumes "0 < c"
  shows "reconstruct_value_of eps (map (map (\<lambda>r. c * r)) reconstructs)
       = reconstruct_value_of (eps / c) reconstructs"
proof -
  have q: "c * r / (c * m + eps) = r / (m + eps / c)" for r m
  proof -
    have "c * m + eps = c * (m + eps / c)" using assms by (simp add: field_simps)
    then show ?thesis using assms by simp
  qed
  show ?thesis
    unfolding reconstruct_value_of_def
    using assms by (intro nth_equalityI) (simp_all add: max_list_scale q)
qed

lemma recon_part_scale:
  assumes "0 < c"
  shows "recon_part eps thr out (map (map (\<lambda>r. c * r)) reconstructs)
       = recon_part (eps / c) (thr / c) out reconstructs"
proof -
  have "(c * r < thr) = (r < thr / c)" for r
    using assms by (simp add: field_simps)
  then have "(\<lambda>r. if c * r < thr then 1 else (0::real)) = (\<lambda>r. if r < thr / c then 1 else 0)"
    by simp
  then have ind: "map (map (\<lambda>r. if r < thr then 1 else (0::real)))
        (map (map (\<lambda>r. c * r)) reconstructs)
      = map (map (\<lambda>r. if r < thr / c then 1 else 0)) reconstructs"
    by (simp add: comp_def)
  show ?thesis
    unfolding recon_part_def by (simp only: ind reconstruct_value_scale[OF assms])
qed

text \<open>
  Claim C6, as amended. For every positive \<open>c\<close>, \<^verbatim>\<open>calculate_loss\<close> on the target
  \<open>c * r\<close> returns what it returns on \<open>r\<close> with the two constants of the reconstruction
  part divided by \<open>c\<close>: \<open>epsilon / c\<close> in the normalisation and \<open>10\<^sup>-\<^sup>5 / c\<close> as the bound
  of the negative set. The normalisation by the maximum removes the factor, the two
  constants do not follow it.
\<close>

theorem calculate_loss_rescaled_target:
  assumes "0 < c"
  shows "calculate_loss args self capsule_input target (map (map (\<lambda>r. c * r)) reconstructs)
       = calculate_loss_with (epsilon / c) (1 / 10 ^ 5 / c) args self capsule_input target
           reconstructs"
  unfolding calculate_loss_def calculate_loss_with_alt
  by (simp only: same_shape_scale empty_row_scale zero_denominator_scale[OF assms]
      recon_part_scale[OF assms])

theorem calculate_loss_rescaled_target_witness:
  "(0::real) < 2
   \<and> calculate_loss ex_args ex_model (of3 ex_caps) ex_target (map (map (\<lambda>r. 2 * r)) ex_reconstructs)
       = calculate_loss_with (epsilon / 2) (1 / 10 ^ 5 / 2) ex_args ex_model (of3 ex_caps) ex_target
           ex_reconstructs"
proof -
  have c: "(0::real) < 2" by simp
  from calculate_loss_rescaled_target[OF c] c show ?thesis by blast
qed

text \<open>
  The claim as stated fails: with the constants fixed, rescaling can move a dimension
  across the bound \<open>10\<^sup>-\<^sup>5\<close>. For the target \<open>[1, 2 * 10\<^sup>-\<^sup>5]\<close> both dimensions are positive
  and the loss is the larger of two errors, below 0.3; for a tenth of that target the
  second dimension is negative and the loss is the sum of the two errors, above 0.4.
\<close>

theorem calculate_loss_rescaled_target_counterexample:
  "(\<exists>rl. calculate_loss ex_args ex_model (of3 ex_caps) ex_target ex_reconstructs_near
           = Inr (0 + rl * (1 / 10), 0, rl, [0, 1]) \<and> rl < 3 / 10)
   \<and> (\<exists>rl. calculate_loss ex_args ex_model (of3 ex_caps) ex_target
             (map (map (\<lambda>r. 1 / 10 * r)) ex_reconstructs_near)
           = Inr (0 + rl * (1 / 10), 0, rl, [0, 1]) \<and> 4 / 10 < rl)"
proof -
  have "(\<exists>rl::real. rl * 40000000000800000000004 = 9999999999800000000001 \<and> rl * 10 < 3)"
    by (rule exI[of _ "9999999999800000000001 / 40000000000800000000004"]) simp
  moreover
  have "(\<exists>rl::real. rl * 200000000040000000002 = 99996000079999600001 \<and> 2 < rl * 5)"
    by (rule exI[of _ "99996000079999600001 / 200000000040000000002"]) simp
  ultimately show ?thesis
    unfolding calculate_loss_def calculate_loss_with_alt ex_shape finite_part_of3 as3_of3 has_nan_of3
    by (simp add: ex_caps_def ex_target_def ex_reconstructs_near_def ex_model_def ex_args_def
      T_c_of_def masked_part_def sum_rows_def linear_batch_def linear_apply_def relu_def
      sigmoid_def same_shape_def epsilon_def v_mag_of_def margin_part_def zip_with2_def
      mean_def argmax_def recon_part_def reconstruct_value_of_def Let_def eval_nat_numeral)
qed

section \<open>The reconstruction loss\<close>

lemma map_index: "map (\<lambda>i. f (xs ! i)) [0..<length xs] = map f xs"
  by (intro nth_equalityI) simp_all

lemma dot_index:
  "length w = length x \<Longrightarrow> sum_list (map2 (*) w x) = (\<Sum>i\<leftarrow>[0..<length x]. w ! i * x ! i)"
proof -
  assume l: "length w = length x"
  have "map2 (*) w x = map (\<lambda>i. w ! i * x ! i) [0..<length x]"
    using l by (intro nth_equalityI) simp_all
  then show ?thesis by simp
qed

lemma linear_apply_affine: "linear_apply layer x = Inr y \<Longrightarrow> y = affine layer x"
proof -
  assume a: "linear_apply layer x = Inr y"
  then have ok: "\<not> list_ex (\<lambda>(w, b). length w \<noteq> length x) layer"
    by (auto simp: linear_apply_def split: if_splits)
  with a have y: "y = map (\<lambda>(w, b). sum_list (map2 (*) w x) + b) layer"
    by (simp add: linear_apply_def)
  have "map (\<lambda>(w, b). sum_list (map2 (*) w x) + b) layer
      = map (\<lambda>(w, b). (\<Sum>i\<leftarrow>[0..<length x]. w ! i * x ! i) + b) layer"
  proof (rule map_cong[OF refl])
    fix p assume p: "p \<in> set layer"
    obtain w b where wb: "p = (w, b)" by (cases p)
    with ok p have "length w = length x" by (auto simp: list_ex_iff)
    with wb show "(case p of (w, b) \<Rightarrow> sum_list (map2 (*) w x) + b)
        = (case p of (w, b) \<Rightarrow> (\<Sum>i\<leftarrow>[0..<length x]. w ! i * x ! i) + b)"
      by (simp add: dot_index)
  qed
  with y show ?thesis by (simp add: affine_def)
qed

lemma linear_batch_affine:
  assumes "linear_batch layer xs = Inr ys"
  shows "ys = map (affine layer) xs"
proof -
  from assms have m: "map (linear_apply layer) xs = map Inr ys"
    by (simp add: linear_batch_def sequence_Inr)
  then have l: "length xs = length ys" by (metis length_map)
  show ?thesis
  proof (rule nth_equalityI)
    show "length ys = length (map (affine layer) xs)" using l by simp
  next
    fix i assume i: "i < length ys"
    from m have "map (linear_apply layer) xs ! i = map Inr ys ! i" by simp
    with i l have "linear_apply layer (xs ! i) = Inr (ys ! i)" by simp
    from linear_apply_affine[OF this] i l show "ys ! i = map (affine layer) xs ! i" by simp
  qed
qed

lemma sum_rows_cols:
  "\<forall>row\<in>set rows. length row = D \<Longrightarrow> sum_rows D rows = map (\<lambda>d. \<Sum>row\<leftarrow>rows. row ! d) [0..<D]"
proof (induction rows)
  case Nil
  have "replicate D (0::real) = map (\<lambda>d. 0) [0..<D]"
    by (intro nth_equalityI) simp_all
  then show ?case by (simp add: sum_rows_def)
next
  case (Cons r rows)
  then have ih: "sum_rows D rows = map (\<lambda>d. \<Sum>row\<leftarrow>rows. row ! d) [0..<D]"
    and l: "length r = D" by simp_all
  have "sum_rows D (r # rows) = map2 (+) r (sum_rows D rows)"
    by (simp add: sum_rows_def)
  also have "\<dots> = map (\<lambda>d. \<Sum>row\<leftarrow>r # rows. row ! d) [0..<D]"
    unfolding ih using l by (intro nth_equalityI) simp_all
  finally show ?case .
qed

lemma masked_part_row:
  assumes "regular2 C D caps" "l < C"
  shows "sum_rows D (map2 (\<lambda>v tc. map (\<lambda>x. x * tc) v) caps (map (one_hot l) [0..<C]))
       = masked_capsule D caps l"
proof -
  have len: "length caps = C" and rows: "\<And>c. c < C \<Longrightarrow> length (caps ! c) = D"
    using assms(1) by (auto simp: regular2_def list_all_length)
  let ?rows = "map2 (\<lambda>v tc. map (\<lambda>x. x * tc) v) caps (map (one_hot l) [0..<C])"
  have e: "?rows = map (\<lambda>c. map (\<lambda>x. x * one_hot l c) (caps ! c)) [0..<C]"
    using len by (intro nth_equalityI) simp_all
  have "\<forall>row\<in>set ?rows. length row = D"
    unfolding e using rows by auto
  from sum_rows_cols[OF this]
  have "sum_rows D ?rows = map (\<lambda>d. \<Sum>row\<leftarrow>?rows. row ! d) [0..<D]" .
  also have "\<dots> = map (\<lambda>d. \<Sum>c\<leftarrow>[0..<C]. one_hot l c * caps ! c ! d) [0..<D]"
  proof (rule map_cong[OF refl])
    fix d assume "d \<in> set [0..<D]"
    then have d: "d < D" by simp
    have "map (\<lambda>row. row ! d) ?rows = map (\<lambda>c. one_hot l c * caps ! c ! d) [0..<C]"
      unfolding e using rows d by (simp add: mult.commute)
    then show "(\<Sum>row\<leftarrow>?rows. row ! d) = (\<Sum>c\<leftarrow>[0..<C]. one_hot l c * caps ! c ! d)"
      by (rule arg_cong)
  qed
  finally show ?thesis by (simp add: masked_capsule_def len)
qed


lemma spec_max_within_cong:
  "\<forall>i\<in>set S. f i = g i \<Longrightarrow> spec_max_within f S = spec_max_within g S"
proof -
  assume "\<forall>i\<in>set S. f i = g i"
  then have "map f S = map g S" by simp
  then show ?thesis by (simp only: spec_max_within_def)
qed

lemma max_list_masked:
  assumes "length d = n" "0 < n" "\<forall>i<n. 0 \<le> d ! i"
  shows "max_list (map2 (*) d (map (\<lambda>i. if P i then 1 else 0) [0..<n]))
       = spec_max_within (\<lambda>i. d ! i) (filter P [0..<n])"
proof -
  let ?xs = "map2 (*) d (map (\<lambda>i. if P i then 1 else 0) [0..<n])"
  have xs: "?xs = map (\<lambda>i. if P i then d ! i else 0) [0..<n]"
    using assms(1) by (intro nth_equalityI) simp_all
  have ne: "?xs \<noteq> []" using assms(1,2) by auto
  have m: "max_list ?xs = Max (set ?xs)" using ne by (rule max_list_Max)
  show ?thesis
  proof (cases "filter P [0..<n] = []")
    case True
    then have "\<forall>i<n. \<not> P i" by (auto simp: filter_empty_conv)
    then have "?xs = map (\<lambda>i. 0) [0..<n]" unfolding xs by simp
    then have "set ?xs = {0}" using assms(2) by auto
    with m True show ?thesis by (simp add: spec_max_within_def)
  next
    case False
    let ?S = "set (map (\<lambda>i. d ! i) (filter P [0..<n]))"
    from False obtain j where j: "j < n" "P j" by (auto simp: filter_empty_conv)
    have fin: "finite ?S" "?S \<noteq> {}" using j by auto
    have "Max (set ?xs) = Max ?S"
    proof (rule antisym)
      show "Max (set ?xs) \<le> Max ?S"
      proof (rule Max.boundedI)
        show "finite (set ?xs)" by simp
        show "set ?xs \<noteq> {}" using ne by simp
        fix a assume "a \<in> set ?xs"
        then obtain i where i: "i < n" "a = (if P i then d ! i else 0)"
          unfolding xs by auto
        show "a \<le> Max ?S"
        proof (cases "P i")
          case True
          with i have "a \<in> ?S" by auto
          then show ?thesis using fin by (intro Max_ge) auto
        next
          case no: False
          from j have "d ! j \<in> ?S" by auto
          then have "d ! j \<le> Max ?S" using fin by (intro Max_ge) auto
          moreover have "0 \<le> d ! j" using assms(3) j by simp
          ultimately show ?thesis using i no by simp
        qed
      qed
    next
      show "Max ?S \<le> Max (set ?xs)"
      proof (rule Max.boundedI)
        show "finite ?S" "?S \<noteq> {}" using fin by auto
        fix a assume "a \<in> ?S"
        then obtain i where "i < n" "P i" "a = d ! i" by auto
        then have "a \<in> set ?xs" unfolding xs by (auto intro!: image_eqI[where x=i])
        then show "a \<le> Max (set ?xs)" by (intro Max_ge) auto
      qed
    qed
    with m False show ?thesis by (simp add: spec_max_within_def)
  qed
qed

lemma recon_graph:
  fixes out r :: vec
  assumes "length out = length r" "r \<noteq> []"
  shows "(let diff = map2 (\<lambda>out v. (out - v) ^ 2) out (map (\<lambda>x. x / (max_list r + eps)) r)
          in max_list (map2 (*) diff (map (\<lambda>n. 1 - n) (map (\<lambda>x. if x < thr then 1 else 0) r)))
           + max_list (map2 (*) diff (map (\<lambda>x. if x < thr then 1 else 0) r)))
     = spec_max_within (\<lambda>i. (out ! i - map (\<lambda>x. x / (Max (set r) + eps)) r ! i)\<^sup>2)
         (filter (\<lambda>i. \<not> r ! i < thr) [0..<length r])
     + spec_max_within (\<lambda>i. (out ! i - map (\<lambda>x. x / (Max (set r) + eps)) r ! i)\<^sup>2)
         (filter (\<lambda>i. r ! i < thr) [0..<length r])"
proof -
  define diff where
    "diff = map2 (\<lambda>out v. (out - v) ^ 2) out (map (\<lambda>x. x / (max_list r + eps)) r)"
  let ?n = "length r"
  let ?err = "\<lambda>i. (out ! i - map (\<lambda>x. x / (Max (set r) + eps)) r ! i)\<^sup>2"
  have n: "0 < ?n" using assms(2) by simp
  have ld: "length diff = ?n" using assms(1) by (simp add: diff_def)
  have d: "diff ! i = ?err i" if "i < ?n" for i
    using that assms(1) max_list_Max[OF assms(2)] by (simp add: diff_def)
  have nn: "\<forall>i<?n. 0 \<le> diff ! i" using d by simp
  have neg: "map (\<lambda>x. if x < thr then 1 else 0) r
      = map (\<lambda>i. if r ! i < thr then 1 else (0::real)) [0..<?n]"
    by (intro nth_equalityI) simp_all
  have pos: "map (\<lambda>n. 1 - n) (map (\<lambda>x. if x < thr then 1 else 0) r)
      = map (\<lambda>i. if \<not> r ! i < thr then 1 else (0::real)) [0..<?n]"
    by (intro nth_equalityI) simp_all
  have "max_list (map2 (*) diff (map (\<lambda>x. if x < thr then 1 else 0) r))
      = spec_max_within (\<lambda>i. diff ! i) (filter (\<lambda>i. r ! i < thr) [0..<?n])"
    unfolding neg using ld n nn by (rule max_list_masked)
  also have "\<dots> = spec_max_within ?err (filter (\<lambda>i. r ! i < thr) [0..<?n])"
    using d by (intro spec_max_within_cong) simp
  finally have a: "max_list (map2 (*) diff (map (\<lambda>x. if x < thr then 1 else 0) r))
      = spec_max_within ?err (filter (\<lambda>i. r ! i < thr) [0..<?n])" .
  have "max_list (map2 (*) diff (map (\<lambda>n. 1 - n) (map (\<lambda>x. if x < thr then 1 else 0) r)))
      = spec_max_within (\<lambda>i. diff ! i) (filter (\<lambda>i. \<not> r ! i < thr) [0..<?n])"
    unfolding pos using ld n nn by (rule max_list_masked)
  also have "\<dots> = spec_max_within ?err (filter (\<lambda>i. \<not> r ! i < thr) [0..<?n])"
    using d by (intro spec_max_within_cong) simp
  finally show ?thesis using a unfolding Let_def diff_def[symmetric] by simp
qed

lemma recon_part_rows:
  assumes "same_shape out reconstructs"
  shows "recon_part eps thr out reconstructs
     = (\<Sum>b\<leftarrow>[0..<length reconstructs].
          (let r = reconstructs ! b;
               diff = map2 (\<lambda>out v. (out - v) ^ 2) (out ! b) (map (\<lambda>x. x / (max_list r + eps)) r)
           in max_list (map2 (*) diff (map (\<lambda>n. 1 - n) (map (\<lambda>x. if x < thr then 1 else 0) r)))
            + max_list (map2 (*) diff (map (\<lambda>x. if x < thr then 1 else 0) r))))
       / real (length reconstructs)"
proof -
  have l: "length out = length reconstructs"
    using assms by (simp add: same_shape_def list_all2_lengthD)
  let ?neg = "map (map (\<lambda>r. if r < thr then 1 else (0::real))) reconstructs"
  let ?pos = "map (map (\<lambda>n. 1 - n)) ?neg"
  let ?diff = "zip_with2 (\<lambda>out v. (out - v) ^ 2) out (reconstruct_value_of eps reconstructs)"
  let ?g = "\<lambda>b. (let r = reconstructs ! b;
               diff = map2 (\<lambda>out v. (out - v) ^ 2) (out ! b) (map (\<lambda>x. x / (max_list r + eps)) r)
           in max_list (map2 (*) diff (map (\<lambda>n. 1 - n) (map (\<lambda>x. if x < thr then 1 else 0) r)))
            + max_list (map2 (*) diff (map (\<lambda>x. if x < thr then 1 else 0) r)))"
  have "map2 (+) (map max_list (zip_with2 (*) ?diff ?pos)) (map max_list (zip_with2 (*) ?diff ?neg))
      = map ?g [0..<length reconstructs]"
    using l
    by (intro nth_equalityI)
       (simp_all add: zip_with2_length zip_with2_nth reconstruct_value_of_def Let_def)
  then show ?thesis
    unfolding recon_part_def Let_def mean_def by (simp only: length_map length_upt minus_nat.diff_0)
qed

lemma same_shape_rows:
  assumes "same_shape a b"
  shows "length a = length b" "\<And>i. i < length b \<Longrightarrow> length (a ! i) = length (b ! i)"
  using assms by (simp_all add: same_shape_def list_all2_conv_all_nth)

lemma decoder_rows:
  assumes "regular3 B C D caps" "length labels = B" "\<forall>l\<in>set labels. l < C"
    and "linear_batch l1 (masked_part D caps (map (\<lambda>l. map (one_hot l) [0..<C]) labels)) = Inr hidden"
    and "linear_batch l2 (map (map relu) hidden) = Inr out"
  shows "length out = B"
    and "\<And>b. b < B \<Longrightarrow> map (map sigmoid) out ! b
            = spec_decode l1 l2 (masked_capsule D (caps ! b) (labels ! b))"
proof -
  have len: "length caps = B" and reg: "\<And>b. b < B \<Longrightarrow> regular2 C D (caps ! b)"
    using assms(1) by (auto simp: regular3_def list_all_length)
  let ?T = "map (\<lambda>l. map (one_hot l) [0..<C]) labels"
  have lm: "length (masked_part D caps ?T) = B"
    using len assms(2) by (simp add: masked_part_def)
  have h: "hidden = map (affine l1) (masked_part D caps ?T)"
    using assms(4) by (rule linear_batch_affine)
  have o: "out = map (affine l2) (map (map relu) hidden)"
    using assms(5) by (rule linear_batch_affine)
  show "length out = B" using o h lm by simp
  fix b assume b: "b < B"
  then have "labels ! b < C" using assms(2,3) by simp
  from masked_part_row[OF reg[OF b] this]
  have "masked_part D caps ?T ! b = masked_capsule D (caps ! b) (labels ! b)"
    using b len assms(2) by (simp add: masked_part_def)
  then show "map (map sigmoid) out ! b
      = spec_decode l1 l2 (masked_capsule D (caps ! b) (labels ! b))"
    using b lm unfolding o h by (simp add: spec_decode_def)
qed

text \<open>
  Claim C3. For a class-capsule tensor \<open>B \<times> C \<times> D\<close> and labels in \<open>[0, C)\<close>, one per
  graph, the reconstruction loss that \<^verbatim>\<open>calculate_loss\<close> returns is the one of the
  specification: per graph, the target is divided by its own maximum plus \<open>epsilon\<close>, the
  true-class-masked capsule is decoded by the two layers with ReLU and sigmoid, the
  squared error is maximised within the negative set (original target below \<open>10\<^sup>-\<^sup>5\<close>) and
  within the positive set, the two maxima are added, and the mean is taken over the batch.
  The maximum within an empty set is 0.
\<close>

theorem calculate_loss_reconstruction:
  assumes "regular3 B C D caps" "length target = B" "\<forall>t\<in>set target. 0 \<le> t \<and> t < int C"
    and "calculate_loss args self (of3 caps) target reconstructs
           = Inr (loss, margin_loss, reconstruction_loss, pred)"
  shows "reconstruction_loss
       = spec_reconstruction_loss (reconstruction_layer_1 self) (reconstruction_layer_2 self)
           D caps (map nat target) reconstructs"
proof -
  let ?l1 = "reconstruction_layer_1 self" and ?l2 = "reconstruction_layer_2 self"
  let ?labels = "map nat target"
  from assms(4) obtain T_c hidden out where
    T: "T_c_of B C target = Inr T_c" and
    h: "linear_batch ?l1 (masked_part D caps T_c) = Inr hidden" and
    o: "linear_batch ?l2 (map (map relu) hidden) = Inr out" and
    ne: "\<not> list_ex (\<lambda>row. row = []) reconstructs" and
    ss: "same_shape (map (map sigmoid) out) reconstructs" and
    r: "reconstruction_loss = recon_part epsilon (1 / 10 ^ 5) (map (map sigmoid) out) reconstructs"
    unfolding calculate_loss_def by (rule calculate_loss_with_of3[OF assms(1)])
  from T have Tc: "T_c = map (\<lambda>l. map (one_hot l) [0..<C]) ?labels"
    unfolding T_c_of_labels[OF assms(2,3)] by (simp add: comp_def)
  have ll: "length ?labels = B" "\<forall>l\<in>set ?labels. l < C"
    using assms(2,3) by auto
  note dec = decoder_rows[OF assms(1) ll h[unfolded Tc] o]
  have lr: "length reconstructs = B"
    using same_shape_rows(1)[OF ss] dec(1) by simp
  have len: "length caps = B" using assms(1) by (simp add: regular3_def)
  let ?g = "\<lambda>b. (let r = reconstructs ! b;
               diff = map2 (\<lambda>out v. (out - v) ^ 2) (map (map sigmoid) out ! b)
                        (map (\<lambda>x. x / (max_list r + epsilon)) r)
           in max_list (map2 (*) diff (map (\<lambda>n. 1 - n) (map (\<lambda>x. if x < 1 / 10 ^ 5 then 1 else 0) r)))
            + max_list (map2 (*) diff (map (\<lambda>x. if x < 1 / 10 ^ 5 then 1 else 0) r)))"
  have g: "?g b = spec_reconstruction_graph ?l1 ?l2 D (caps ! b) (?labels ! b) (reconstructs ! b)"
    if b: "b < B" for b
  proof -
    have "length (map (map sigmoid) out ! b) = length (reconstructs ! b)"
      using same_shape_rows(2)[OF ss] b lr by simp
    moreover have "reconstructs ! b \<in> set reconstructs" using b lr by simp
    with ne have "reconstructs ! b \<noteq> []" unfolding list_ex_iff by metis
    moreover note this
    ultimately show ?thesis
      using recon_graph[of "map (map sigmoid) out ! b" "reconstructs ! b" epsilon "1 / 10 ^ 5"]
      unfolding dec(2)[OF b] spec_reconstruction_graph_def Let_def by simp
  qed
  have "map ?g [0..<B] = map (\<lambda>b. spec_reconstruction_graph ?l1 ?l2 D (caps ! b) (?labels ! b)
           (reconstructs ! b)) [0..<B]"
    by (rule map_cong[OF refl]) (use g in simp)
  then show ?thesis
    unfolding r recon_part_rows[OF ss] spec_reconstruction_loss_def lr len by (simp only:)
qed

theorem calculate_loss_reconstruction_witness:
  "regular3 2 2 2 ex_caps \<and> length ex_target = 2
   \<and> (\<exists>rl. calculate_loss ex_args ex_model (of3 ex_caps) ex_target ex_reconstructs
             = Inr (0 + rl * (1 / 10), 0, rl, [0, 1])
          \<and> rl = spec_reconstruction_loss (reconstruction_layer_1 ex_model)
                   (reconstruction_layer_2 ex_model) 2 ex_caps (map nat ex_target)
                   ex_reconstructs)"
proof -
  have r: "regular3 2 2 2 ex_caps" "length ex_target = 2"
    "\<forall>t\<in>set ex_target. 0 \<le> t \<and> t < int 2"
    by (simp_all add: regular3_def regular2_def ex_caps_def ex_target_def)
  from ex_returns obtain rl where
    e: "calculate_loss ex_args ex_model (of3 ex_caps) ex_target ex_reconstructs
          = Inr (0 + rl * (1 / 10), 0, rl, [0, 1])" ..
  from calculate_loss_reconstruction[OF r e] r(1,2) e show ?thesis by blast
qed

section \<open>\<^verbatim>\<open>calculate_loss\<close> returns on well-formed batches\<close>

text \<open>
  The claims above speak about what \<^verbatim>\<open>calculate_loss\<close> returns. It does return, with
  real-valued losses, on every batch of at least two graphs with at least two classes and
  capsules of dimension at least 2, labels in \<open>[0, C)\<close>, decoder layers whose widths fit,
  and nonnegative targets of the decoder's output width.
\<close>

lemma linear_apply_fits:
  assumes "\<forall>p\<in>set layer. length (fst p) = length x"
  shows "linear_apply layer x = Inr (affine layer x)"
proof -
  have ok: "\<not> list_ex (\<lambda>(w, b). length w \<noteq> length x) layer"
    using assms by (auto simp: list_ex_iff)
  then have "\<exists>y. linear_apply layer x = Inr y" by (simp add: linear_apply_def)
  then obtain y where y: "linear_apply layer x = Inr y" ..
  from linear_apply_affine[OF this] y show ?thesis by simp
qed

lemma linear_batch_fits:
  assumes "\<forall>p\<in>set layer. length (fst p) = n" "\<forall>x\<in>set xs. length x = n"
  shows "linear_batch layer xs = Inr (map (affine layer) xs)"
proof -
  have "map (linear_apply layer) xs = map Inr (map (affine layer) xs)"
    using assms by (simp add: linear_apply_fits)
  then show ?thesis by (simp only: linear_batch_def sequence_Inr)
qed

lemma length_affine: "length (affine layer x) = length layer"
  by (simp add: affine_def)

lemma masked_part_lengths:
  assumes "regular3 B C D caps"
  shows "\<forall>x\<in>set (masked_part D caps T). length x = D"
proof
  fix x assume "x \<in> set (masked_part D caps T)"
  then obtain p where p: "p \<in> set (zip caps T)"
    and x: "x = sum_rows D (map2 (\<lambda>v tc. map (\<lambda>x. x * tc) v) (fst p) (snd p))"
    unfolding masked_part_def by (auto simp: case_prod_beta)
  from p have "fst p \<in> set caps" by (metis prod.collapse set_zip_leftD)
  with assms have v: "\<forall>v\<in>set (fst p). length v = D"
    by (auto simp: regular3_def regular2_def list_all_iff)
  have "\<forall>row\<in>set (map2 (\<lambda>v tc. map (\<lambda>x. x * tc) v) (fst p) (snd p)). length row = D"
  proof
    fix row assume "row \<in> set (map2 (\<lambda>v tc. map (\<lambda>x. x * tc) v) (fst p) (snd p))"
    then obtain q where "q \<in> set (zip (fst p) (snd p))" "row = map (\<lambda>x. x * snd q) (fst q)"
      by (auto simp: case_prod_beta)
    moreover then have "fst q \<in> set (fst p)" by (metis prod.collapse set_zip_leftD)
    ultimately show "length row = D" using v by simp
  qed
  from sum_rows_cols[OF this] x show "length x = D" by simp
qed

lemma calculate_loss_with_regular:
  assumes "regular3 B C D caps" "2 \<le> B" "2 \<le> C" "D \<noteq> 1"
  shows "calculate_loss_with eps thr args self (of3 caps) target reconstructs =
      (case T_c_of B C target of
        Inl e \<Rightarrow> Inl e
      | Inr T_c \<Rightarrow>
      (case linear_batch (reconstruction_layer_1 self) (masked_part D caps T_c) of
        Inl e \<Rightarrow> Inl e
      | Inr hidden \<Rightarrow>
      (case linear_batch (reconstruction_layer_2 self) (map (map relu) hidden) of
        Inl e \<Rightarrow> Inl e
      | Inr out \<Rightarrow>
        if list_ex (\<lambda>row. row = []) reconstructs then Inl RuntimeError
        else if \<not> same_shape (map (map sigmoid) out) reconstructs then Inl Unmodelled
        else if list_ex (\<lambda>m. m + eps = 0) (map max_list reconstructs) then Inl NaN_value
        else Inr (margin_part (lambda_val args) (v_mag_of caps) T_c
                    + recon_part eps thr (map (map sigmoid) out) reconstructs * reg_scale args,
                  margin_part (lambda_val args) (v_mag_of caps) T_c,
                  recon_part eps thr (map (map sigmoid) out) reconstructs,
                  map argmax (v_mag_of caps)))))"
proof -
  have s: "shape (of3 caps) = [B, C, D]" "squeeze (of3 caps) = of3 caps"
    using assms by (simp_all add: shape_of3 squeeze_of3)
  show ?thesis
    unfolding calculate_loss_with_alt s finite_part_of3 as3_of3 has_nan_of3 simp_thms
    by (simp cong: sum.case_cong)
qed

lemma calculate_loss_returns:
  assumes "regular3 B C D caps" "2 \<le> B" "2 \<le> C" "2 \<le> D"
    and "length target = B" "\<forall>t\<in>set target. 0 \<le> t \<and> t < int C"
    and "\<forall>p\<in>set (reconstruction_layer_1 self). length (fst p) = D"
    and "\<forall>p\<in>set (reconstruction_layer_2 self).
           length (fst p) = length (reconstruction_layer_1 self)"
    and "regular2 B (length (reconstruction_layer_2 self)) reconstructs"
    and "reconstruction_layer_2 self \<noteq> []"
    and "\<forall>row\<in>set reconstructs. \<forall>r\<in>set row. 0 \<le> r"
  shows "\<exists>loss margin_loss reconstruction_loss pred.
           calculate_loss args self (of3 caps) target reconstructs
             = Inr (loss, margin_loss, reconstruction_loss, pred)"
proof -
  let ?l1 = "reconstruction_layer_1 self" and ?l2 = "reconstruction_layer_2 self"
  let ?T = "map (\<lambda>t. map (one_hot (nat t)) [0..<C]) target"
  have d: "D \<noteq> 1" using assms(4) by simp
  have T: "T_c_of B C target = Inr ?T" using assms(5,6) by (rule T_c_of_labels)
  let ?m = "masked_part D caps ?T"
  have h: "linear_batch ?l1 ?m = Inr (map (affine ?l1) ?m)"
    using assms(7) masked_part_lengths[OF assms(1)] by (rule linear_batch_fits)
  let ?h = "map (map relu) (map (affine ?l1) ?m)"
  have "\<forall>x\<in>set ?h. length x = length ?l1" by (auto simp: length_affine)
  with assms(8) have o: "linear_batch ?l2 ?h = Inr (map (affine ?l2) ?h)"
    by (rule linear_batch_fits)
  let ?o = "map (map sigmoid) (map (affine ?l2) ?h)"
  have lr: "length reconstructs = B" and rows: "\<forall>row\<in>set reconstructs. length row = length ?l2"
    using assms(9) by (auto simp: regular2_def list_all_iff)
  have lm: "length ?m = B"
    using assms(1,5) by (simp add: masked_part_def regular3_def)
  have ss: "same_shape ?o reconstructs"
    unfolding same_shape_def list_all2_conv_all_nth
    using lr lm rows by (simp add: length_affine)
  have ne: "\<not> list_ex (\<lambda>row. row = []) reconstructs"
    using rows assms(10) by (auto simp: list_ex_iff)
  have nz: "\<not> list_ex (\<lambda>m. m + epsilon = 0) (map max_list reconstructs)"
  proof -
    have "0 < max_list row + epsilon" if "row \<in> set reconstructs" for row
    proof -
      from that assms(11) have "0 \<le> max_list row" by (intro max_list_nonneg) blast
      then show ?thesis by (simp add: epsilon_def add_nonneg_pos)
    qed
    then show ?thesis by (fastforce simp: list_ex_iff)
  qed
  show ?thesis
    unfolding calculate_loss_def calculate_loss_with_regular[OF assms(1-3) d]
    by (simp only: T h o sum.case ne ss nz if_False simp_thms) blast
qed

section \<open>The sign of the losses\<close>

lemma has_nan_squeeze: "has_nan (squeeze t) = has_nan t"
  by (induction t rule: squeeze.induct) (simp_all add: list_ex_iff)

lemma T_c_of_error: "T_c_of B C target = Inl e \<Longrightarrow> e = IndexError"
  by (auto simp: T_c_of_def Let_def split: if_splits)

lemma sequence_error: "sequence rs = Inl e \<Longrightarrow> Inl e \<in> set rs"
proof (induction rs)
  case Nil
  then show ?case by simp
next
  case (Cons r rs)
  show ?case
  proof (cases r)
    case (Inl e')
    with Cons.prems show ?thesis by simp
  next
    case (Inr x)
    with Cons.prems have "sequence rs = Inl e" by (cases "sequence rs") simp_all
    with Cons.IH show ?thesis by simp
  qed
qed

lemma linear_batch_error: "linear_batch layer xs = Inl e \<Longrightarrow> e = RuntimeError"
proof -
  assume "linear_batch layer xs = Inl e"
  then have "Inl e \<in> set (map (linear_apply layer) xs)"
    unfolding linear_batch_def by (rule sequence_error)
  then obtain x where "linear_apply layer x = Inl e" by auto
  then show ?thesis by (auto simp: linear_apply_def split: if_splits)
qed

lemma calculate_loss_returned_nonneg:
  assumes "calculate_loss args self capsule_input target reconstructs
             = Inr (loss, margin_loss, reconstruction_loss, pred)"
    and "0 \<le> lambda_val args" "0 \<le> reg_scale args"
  shows "0 \<le> margin_loss \<and> 0 \<le> reconstruction_loss \<and> 0 \<le> loss"
proof -
  from assms(1) obtain ci T_c out where
    T: "T_c_of (shape capsule_input ! 0) (shape capsule_input ! 1) target = Inr T_c" and
    m: "margin_loss = margin_part (lambda_val args) (v_mag_of ci) T_c" and
    r: "reconstruction_loss = recon_part epsilon (1 / 10 ^ 5) out reconstructs" and
    l: "loss = margin_loss + reconstruction_loss * reg_scale args"
    unfolding calculate_loss_def calculate_loss_with_alt
    by (auto split: if_splits option.splits sum.splits)
  have "0 \<le> margin_loss"
    unfolding m using assms(2) T_c_of_binary[OF T] by (rule margin_part_nonneg)
  moreover have "0 \<le> reconstruction_loss"
    unfolding r by (rule recon_part_nonneg)
  ultimately show ?thesis using l assms(3) by simp
qed


lemma calculate_loss_no_NaN:
  assumes "\<not> has_nan capsule_input"
    and "\<not> list_ex (\<lambda>m. m + epsilon = 0) (map max_list reconstructs)"
  shows "calculate_loss args self capsule_input target reconstructs \<noteq> Inl NaN_value"
proof
  assume n: "calculate_loss args self capsule_input target reconstructs = Inl NaN_value"
  have h: "\<not> has_nan (squeeze capsule_input)"
    using assms(1) by (simp add: has_nan_squeeze)
  from n show False
    unfolding calculate_loss_def calculate_loss_with_alt
    using h assms(2)
    by (auto split: if_splits option.splits sum.splits
          dest: T_c_of_error linear_batch_error)
qed

text \<open>
  Claim C10, as amended. For \<open>lambda_val\<close> and \<open>reg_scale\<close> that are not negative, a
  capsule input without NaN and targets with \<open>reconstructs_max + epsilon\<close> other than 0
  for every graph, \<^verbatim>\<open>calculate_loss\<close> does not return NaN, and the three losses it
  returns are not negative: the margin loss is a mean of sums of squares weighted by 0,
  1 or \<open>lambda_val\<close>, the reconstruction loss a mean of maxima of squared errors weighted
  by 0 or 1, and the total loss is \<open>margin_loss + reconstruction_loss * reg_scale\<close>.
\<close>

theorem calculate_loss_nonneg:
  assumes "0 \<le> lambda_val args" "0 \<le> reg_scale args"
    and "\<not> has_nan capsule_input"
    and "\<not> list_ex (\<lambda>m. m + epsilon = 0) (map max_list reconstructs)"
  shows "calculate_loss args self capsule_input target reconstructs \<noteq> Inl NaN_value
       \<and> (\<forall>loss margin_loss reconstruction_loss pred.
            calculate_loss args self capsule_input target reconstructs
              = Inr (loss, margin_loss, reconstruction_loss, pred)
            \<longrightarrow> 0 \<le> margin_loss \<and> 0 \<le> reconstruction_loss \<and> 0 \<le> loss)"
  using calculate_loss_no_NaN[OF assms(3,4)] calculate_loss_returned_nonneg[OF _ assms(1,2)]
  by blast

theorem calculate_loss_nonneg_witness:
  "0 \<le> lambda_val ex_args \<and> 0 \<le> reg_scale ex_args \<and> \<not> has_nan (of3 ex_caps)
   \<and> \<not> list_ex (\<lambda>m. m + epsilon = 0) (map max_list ex_reconstructs)
   \<and> (\<exists>rl. calculate_loss ex_args ex_model (of3 ex_caps) ex_target ex_reconstructs
             = Inr (0 + rl * (1 / 10), 0, rl, [0, 1])
          \<and> (0::real) \<le> 0 \<and> 0 \<le> rl \<and> 0 \<le> 0 + rl * (1 / 10))"
proof -
  from ex_returns obtain rl where
    e: "calculate_loss ex_args ex_model (of3 ex_caps) ex_target ex_reconstructs
          = Inr (0 + rl * (1 / 10), 0, rl, [0, 1])" ..
  have h: "0 \<le> lambda_val ex_args" "0 \<le> reg_scale ex_args" "\<not> has_nan (of3 ex_caps)"
    "\<not> list_ex (\<lambda>m. m + epsilon = 0) (map max_list ex_reconstructs)"
    by (simp_all add: ex_args_def has_nan_of3 ex_reconstructs_def epsilon_def)
  from calculate_loss_nonneg[OF h, of ex_model ex_target] e
  have "(0::real) \<le> 0 \<and> 0 \<le> rl \<and> 0 \<le> 0 + rl * (1 / 10)" by blast
  with e h show ?thesis by blast
qed

text \<open>
  The claim as stated fails: when the maximum of one target is \<open>- epsilon\<close>, line 141
  divides by 0, and the reconstruction loss and the total loss that
  \<^verbatim>\<open>calculate_loss\<close> returns are NaN, which is not at least 0.
\<close>

theorem calculate_loss_nonneg_counterexample:
  "0 \<le> lambda_val ex_args \<and> 0 \<le> reg_scale ex_args
   \<and> calculate_loss ex_args ex_model (of3 ex_caps) ex_target [[- (1 / 10 ^ 11), - 1], [0, 2]]
       = Inl NaN_value"
  unfolding calculate_loss_def calculate_loss_with_alt ex_shape finite_part_of3 as3_of3 has_nan_of3
  by (simp add: ex_caps_def ex_target_def ex_model_def ex_args_def
      T_c_of_def masked_part_def sum_rows_def linear_batch_def linear_apply_def relu_def
      sigmoid_def same_shape_def epsilon_def eval_nat_numeral)

end
